theory Spec2Isabelle
  imports Main "HOL-Library.Word"
begin

unbundle bit_operations_syntax

section \<open>Byte strings and raised errors\<close>

text \<open>
  Python \<open>bytes\<close> are lists of octets. Python integers are unbounded, so every integer
  field of the model is an \<open>int\<close>, and the packing functions reject what does not fit the
  wire width. A raised exception is the \<open>Inl\<close> branch of a result.
\<close>

type_synonym bytes = "8 word list"

datatype error = Malformed | StructError | ValueError | AssertionError | AttributeError
  | KeyError | IndexError | TypeError | OverflowError | OperationalError

definition bind_result :: "error + 'a \<Rightarrow> ('a \<Rightarrow> error + 'b) \<Rightarrow> error + 'b" where
  "bind_result m f = (case m of Inl e \<Rightarrow> Inl e | Inr x \<Rightarrow> f x)"

section \<open>BCDataStream\<close>

text \<open>
  Modelled from the spec: the byte stream codec \<open>bcd_data_stream.py\<close> is not among the
  sources. Section 4.1 of the specification fixes it: little-endian unsigned integers of
  8, 16, 32 and 64 bits, the compact size (1, 3, 5 or 9 bytes with thresholds 0xFD,
  0xFFFF, 0xFFFFFFFF), length-prefixed byte strings, a cursor \<open>tell\<close>, and \<open>Malformed\<close>
  whenever a read exceeds the input. Section 7 also files a compact-size overflow under
  \<open>Malformed\<close>, which is what a value outside the width gives when written.
\<close>

fun le_bytes :: "nat \<Rightarrow> nat \<Rightarrow> bytes" where
  "le_bytes 0 v = []"
| "le_bytes (Suc k) v = of_nat (v mod 256) # le_bytes k (v div 256)"

fun le_val :: "bytes \<Rightarrow> nat" where
  "le_val [] = 0"
| "le_val (b # bs) = unat b + 256 * le_val bs"

text \<open>
  A stream being written is the bytes written so far; \<open>stream_write\<close> is the method
  \<open>write\<close> and \<open>stream_read\<close> the method \<open>read\<close>.
\<close>

definition stream_write :: "bytes \<Rightarrow> bytes \<Rightarrow> error + bytes" where
  "stream_write s b = Inr (s @ b)"

definition write_uint :: "nat \<Rightarrow> bytes \<Rightarrow> int \<Rightarrow> error + bytes" where
  "write_uint k s v =
     (if 0 \<le> v \<and> v < 256 ^ k then stream_write s (le_bytes k (nat v)) else Inl Malformed)"

definition write_uint8 :: "bytes \<Rightarrow> int \<Rightarrow> error + bytes" where
  "write_uint8 = write_uint 1"

definition write_uint16 :: "bytes \<Rightarrow> int \<Rightarrow> error + bytes" where
  "write_uint16 = write_uint 2"

definition write_uint32 :: "bytes \<Rightarrow> int \<Rightarrow> error + bytes" where
  "write_uint32 = write_uint 4"

definition write_uint64 :: "bytes \<Rightarrow> int \<Rightarrow> error + bytes" where
  "write_uint64 = write_uint 8"

definition write_compact_size :: "bytes \<Rightarrow> int \<Rightarrow> error + bytes" where
  "write_compact_size s n =
     (if n < 0xFD then write_uint8 s n
      else if n \<le> 0xFFFF then bind_result (write_uint8 s 0xFD) (\<lambda>s. write_uint16 s n)
      else if n \<le> 0xFFFFFFFF then bind_result (write_uint8 s 0xFE) (\<lambda>s. write_uint32 s n)
      else bind_result (write_uint8 s 0xFF) (\<lambda>s. write_uint64 s n))"

definition write_string :: "bytes \<Rightarrow> bytes \<Rightarrow> error + bytes" where
  "write_string s b =
     bind_result (write_compact_size s (int (length b))) (\<lambda>s. stream_write s b)"

text \<open>A stream being read is its cursor and the bytes after the cursor.\<close>

record BCDataStream =
  tell :: nat
  unread :: bytes

definition BCDataStream_init :: "bytes \<Rightarrow> BCDataStream" where
  "BCDataStream_init b = \<lparr>tell = 0, unread = b\<rparr>"

definition stream_read :: "BCDataStream \<Rightarrow> nat \<Rightarrow> error + (bytes \<times> BCDataStream)" where
  "stream_read st n =
     (if n \<le> length (unread st)
      then Inr (take n (unread st), \<lparr>tell = tell st + n, unread = drop n (unread st)\<rparr>)
      else Inl Malformed)"

definition read_uint :: "nat \<Rightarrow> BCDataStream \<Rightarrow> error + (int \<times> BCDataStream)" where
  "read_uint k st = bind_result (stream_read st k) (\<lambda>(b, st). Inr (int (le_val b), st))"

definition read_uint8 :: "BCDataStream \<Rightarrow> error + (int \<times> BCDataStream)" where
  "read_uint8 = read_uint 1"

definition read_uint16 :: "BCDataStream \<Rightarrow> error + (int \<times> BCDataStream)" where
  "read_uint16 = read_uint 2"

definition read_uint32 :: "BCDataStream \<Rightarrow> error + (int \<times> BCDataStream)" where
  "read_uint32 = read_uint 4"

definition read_uint64 :: "BCDataStream \<Rightarrow> error + (int \<times> BCDataStream)" where
  "read_uint64 = read_uint 8"

definition read_compact_size :: "BCDataStream \<Rightarrow> error + (int \<times> BCDataStream)" where
  "read_compact_size st =
     bind_result (read_uint8 st) (\<lambda>(n, st).
       if n < 0xFD then Inr (n, st)
       else if n = 0xFD then read_uint16 st
       else if n = 0xFE then read_uint32 st
       else read_uint64 st)"

definition read_string :: "BCDataStream \<Rightarrow> error + (bytes \<times> BCDataStream)" where
  "read_string st = bind_result (read_compact_size st) (\<lambda>(n, st). stream_read st (nat n))"

text \<open>
  The loops of the codec: \<open>for x in xs: x.serialize_to(stream)\<close> and the comprehension
  \<open>[read(stream) for _ in range(n)]\<close>.
\<close>

fun write_each :: "(bytes \<Rightarrow> 'a \<Rightarrow> error + bytes) \<Rightarrow> bytes \<Rightarrow> 'a list \<Rightarrow> error + bytes" where
  "write_each w s [] = Inr s"
| "write_each w s (x # xs) = bind_result (w s x) (\<lambda>s. write_each w s xs)"

fun read_many ::
  "(BCDataStream \<Rightarrow> error + ('a \<times> BCDataStream)) \<Rightarrow> nat \<Rightarrow> BCDataStream
     \<Rightarrow> error + ('a list \<times> BCDataStream)" where
  "read_many r 0 st = Inr ([], st)"
| "read_many r (Suc n) st =
     bind_result (r st) (\<lambda>(x, st).
       bind_result (read_many r n st) (\<lambda>(xs, st). Inr (x # xs, st)))"

section \<open>The data model of \<open>transaction.py\<close>\<close>

subsection \<open>Transaction references\<close>

text \<open>
  A \<open>TXRef\<close> object is either immutable (hash and height fixed by \<open>from_hash\<close>) or the
  mutable reference that a live \<open>Transaction\<close> creates for itself in \<open>__init__\<close>. A
  Python reference to a \<open>TXRefMutable\<close> is modelled by the identity of the transaction
  it belongs to: the transaction never replaces its \<open>ref\<close>, so the two identities
  coincide. The cache slots \<open>_id\<close> and \<open>_hash\<close> of the mutable reference are the
  fields \<open>priv_id\<close> and \<open>priv_hash\<close> (an Isabelle name cannot start with an
  underscore).
\<close>

datatype TXRef = TXRefImmutable bytes int | TXRefMutable nat

record TXRefMutable =
  priv_id :: "string option"
  priv_hash :: "bytes option"
  tx :: nat

definition reset :: "TXRefMutable \<Rightarrow> TXRefMutable" where
  "reset r = r\<lparr>priv_id := None, priv_hash := None\<rparr>"

text \<open>
  The property \<open>hash\<close> of a reference. For a mutable reference the source computes
  \<open>sha256(sha256(tx.raw_sans_segwit))\<close> of the transaction it points to, on demand; the
  model reads that value from an environment \<open>H\<close> that gives, for each live transaction,
  what its \<open>ref.hash\<close> currently returns.
\<close>

definition TXRef_hash :: "(nat \<Rightarrow> bytes) \<Rightarrow> TXRef \<Rightarrow> bytes" where
  "TXRef_hash H r = (case r of TXRefImmutable h _ \<Rightarrow> h | TXRefMutable t \<Rightarrow> H t)"

definition NULL_HASH32 :: bytes where
  "NULL_HASH32 = replicate 32 0"

text \<open>
  Modelled from the spec: \<open>TXRef.is_null\<close> lives in \<open>hash.py\<close>, which is not among the
  sources. Section 3: a reference carries a 32-byte hash and is null iff that hash is all
  zero.
\<close>

definition TXRef_is_null :: "(nat \<Rightarrow> bytes) \<Rightarrow> TXRef \<Rightarrow> bool" where
  "TXRef_is_null H r = (TXRef_hash H r = NULL_HASH32)"

subsection \<open>Scripts and claim payloads\<close>

text \<open>
  Modelled from the spec: \<open>script.py\<close> and the claim codec are not among the sources.
  Section 6.2 gives a script its raw \<open>source\<close> bytes, a tag naming which of the known
  script shapes it has, and a value map keyed by strings; section 1 lists what the core
  touches of a claim: its byte form, \<open>signing_channel_hash\<close>, \<open>signature\<close>,
  \<open>to_message_bytes()\<close> and \<open>unsigned_payload\<close>. The field \<open>message\<close> stands for the
  rest of the parsed payload.
\<close>

datatype template = PayPubKeyHash | ClaimName | UpdateClaim | SupportClaim | ReturnData
  | Other

record Claim =
  message :: bytes
  signing_channel_hash :: "bytes option"
  signature :: "bytes option"
  unsigned_payload :: "bytes option"

datatype script_value = Bytes bytes | Parsed Claim

record Script =
  source :: bytes
  offset :: int
  template :: template
  script_values :: "string \<Rightarrow> script_value option"

definition is_pay_pubkey_hash :: "Script \<Rightarrow> bool" where
  "is_pay_pubkey_hash s = (template s = PayPubKeyHash)"

definition is_claim_name :: "Script \<Rightarrow> bool" where
  "is_claim_name s = (template s = ClaimName)"

definition is_update_claim :: "Script \<Rightarrow> bool" where
  "is_update_claim s = (template s = UpdateClaim)"

definition is_support_claim :: "Script \<Rightarrow> bool" where
  "is_support_claim s = (template s = SupportClaim)"

definition is_claim_involved :: "Script \<Rightarrow> bool" where
  "is_claim_involved s = (is_claim_name s \<or> is_update_claim s \<or> is_support_claim s)"

text \<open>
  What the absent collaborators compute is a parameter of every function that calls them:
  the two disassemblers behind \<open>InputScript(bytes)\<close> and \<open>OutputScript(bytes)\<close>, the
  assembler behind \<open>script.generate()\<close>, the hashes, the claim codec and the signer.
\<close>

record ext =
  parse_input_script :: "bytes \<Rightarrow> template \<times> (string \<Rightarrow> script_value option)"
  parse_output_script :: "bytes \<Rightarrow> template \<times> (string \<Rightarrow> script_value option)"
  assemble :: "template \<Rightarrow> (string \<Rightarrow> script_value option) \<Rightarrow> bytes"
  sha256 :: "bytes \<Rightarrow> bytes"
  hash160 :: "bytes \<Rightarrow> bytes"
  claim_from_bytes :: "bytes \<Rightarrow> error + Claim"
  to_message_bytes :: "Claim \<Rightarrow> bytes"
  claim_clear_signature :: "Claim \<Rightarrow> Claim"
  sign_digest_deterministic :: "bytes \<Rightarrow> bytes \<Rightarrow> bytes"

definition InputScript :: "ext \<Rightarrow> bytes \<Rightarrow> Script" where
  "InputScript X b =
     \<lparr>source = b, offset = 0, template = fst (parse_input_script X b),
      script_values = snd (parse_input_script X b)\<rparr>"

definition OutputScript :: "ext \<Rightarrow> bytes \<Rightarrow> int \<Rightarrow> Script" where
  "OutputScript X b off =
     \<lparr>source = b, offset = off, template = fst (parse_output_script X b),
      script_values = snd (parse_output_script X b)\<rparr>"

definition generate :: "ext \<Rightarrow> Script \<Rightarrow> Script" where
  "generate X s = s\<lparr>source := assemble X (template s) (script_values s)\<rparr>"

subsection \<open>Inputs and outputs\<close>

text \<open>
  \<open>InputOutput\<close> is the common base class; \<open>Input\<close> and \<open>Output\<close> extend it. Of the
  wallet annotations of an \<open>Output\<close> the model keeps the ones that the functions below
  read or write. The \<open>channel\<close> link points to another output; its type is a parameter,
  so that an output signed by a channel and the channel itself are two instances of the
  same record.
\<close>

record InputOutput =
  tx_ref :: "TXRef option"
  position :: "int option"

record 'c Output = InputOutput +
  amount :: int
  script :: Script
  is_my_output :: "bool option"
  channel :: "'c option"
  private_key :: "bytes option"

text \<open>
  \<open>TXORef\<close> and its subclass \<open>TXORefResolvable\<close>: the property \<open>txo\<close> is \<open>None\<close> for
  the former and the output itself for the latter.
\<close>

record 'o TXORef =
  tx_ref :: TXRef
  position :: int
  txo :: "'o option"

text \<open>
  The constructor of \<open>Input\<close> stores its argument \<open>script\<close> either in the slot
  \<open>coinbase\<close> or in the slot \<open>script\<close>; callers pass raw bytes for a coinbase and an
  \<open>InputScript\<close> object otherwise.
\<close>

datatype script_arg = ScriptObj Script | RawBytes bytes

record 'c Input = InputOutput +
  txo_ref :: "'c Output TXORef"
  sequence :: int
  coinbase :: "script_arg option"
  script :: "script_arg option"

subsection \<open>Transactions\<close>

text \<open>
  The element types of the two lists are parameters: the codec works with the inputs and
  outputs themselves, the part on object identity with references to them.
\<close>

record ('i, 'o) Transaction =
  priv_raw :: "bytes option"
  priv_raw_sans_segwit :: "bytes option"
  is_segwit_flag :: int
  witnesses :: "bytes list"
  ref :: TXRefMutable
  version :: int
  locktime :: int
  priv_inputs :: "'i list"
  priv_outputs :: "'o list"
  is_verified :: bool
  height :: int
  position :: int
  priv_day :: "int option"

section \<open>Class \<open>Input\<close>\<close>

definition TXORef_init :: "TXRef \<Rightarrow> int \<Rightarrow> 'o TXORef" where
  "TXORef_init r p = \<lparr>TXORef.tx_ref = r, TXORef.position = p, txo = None\<rparr>"

definition TXORefResolvable_init :: "'c Output \<Rightarrow> error + 'c Output TXORef" where
  "TXORefResolvable_init t =
     (case InputOutput.tx_ref t of None \<Rightarrow> Inl AssertionError
      | Some r \<Rightarrow>
          (case InputOutput.position t of None \<Rightarrow> Inl AssertionError
           | Some p \<Rightarrow> Inr \<lparr>TXORef.tx_ref = r, TXORef.position = p, txo = Some t\<rparr>))"

definition TXORef_is_null :: "(nat \<Rightarrow> bytes) \<Rightarrow> 'o TXORef \<Rightarrow> bool" where
  "TXORef_is_null H r = TXRef_is_null H (TXORef.tx_ref r)"

definition Input_init ::
  "(nat \<Rightarrow> bytes) \<Rightarrow> 'c Output TXORef \<Rightarrow> script_arg option \<Rightarrow> int \<Rightarrow> TXRef option
     \<Rightarrow> int option \<Rightarrow> 'c Input" where
  "Input_init H r scr sq tref pos =
     \<lparr>InputOutput.tx_ref = tref, InputOutput.position = pos, txo_ref = r, sequence = sq,
      coinbase = (if TXORef_is_null H r then scr else None),
      Input.script = (if \<not> TXORef_is_null H r then scr else None)\<rparr>"

definition is_coinbase :: "'c Input \<Rightarrow> bool" where
  "is_coinbase self = (coinbase self \<noteq> None)"

definition create_coinbase :: "(nat \<Rightarrow> bytes) \<Rightarrow> 'c Input" where
  "create_coinbase H =
     Input_init H (TXORef_init (TXRefImmutable NULL_HASH32 0) 0)
       (Some (RawBytes [0x62, 0x65, 0x65, 0x66])) 0xFFFFFFFF None None"

definition Input_amount :: "'c Input \<Rightarrow> error + int" where
  "Input_amount self =
     (case txo (txo_ref self) of None \<Rightarrow> Inl ValueError | Some t \<Rightarrow> Inr (amount t))"

definition Input_is_my_input :: "'c Input \<Rightarrow> bool option" where
  "Input_is_my_input self =
     (case txo (txo_ref self) of None \<Rightarrow> Some False | Some t \<Rightarrow> is_my_output t)"

definition Input_deserialize_from ::
  "ext \<Rightarrow> (nat \<Rightarrow> bytes) \<Rightarrow> BCDataStream \<Rightarrow> error + ('c Input \<times> BCDataStream)" where
  "Input_deserialize_from X H stream =
     bind_result (stream_read stream 32) (\<lambda>(h, stream).
     bind_result (read_uint32 stream) (\<lambda>(pos, stream).
     bind_result (read_string stream) (\<lambda>(scr, stream).
     bind_result (read_uint32 stream) (\<lambda>(sq, stream).
       Inr (Input_init H (TXORef_init (TXRefImmutable h (- 1)) pos)
              (Some (if \<not> TXRef_is_null H (TXRefImmutable h (- 1))
                     then ScriptObj (InputScript X scr) else RawBytes scr))
              sq None None,
            stream)))))"

definition Input_serialize_to ::
  "(nat \<Rightarrow> bytes) \<Rightarrow> 'c Input \<Rightarrow> bytes \<Rightarrow> bytes option \<Rightarrow> error + bytes" where
  "Input_serialize_to H self stream alternate_script =
     bind_result (stream_write stream (TXRef_hash H (TXORef.tx_ref (txo_ref self)))) (\<lambda>stream.
     bind_result (write_uint32 stream (TXORef.position (txo_ref self))) (\<lambda>stream.
     bind_result
       (case alternate_script of
          Some a \<Rightarrow> write_string stream a
        | None \<Rightarrow>
            if is_coinbase self
            then (case coinbase self of
                    Some (RawBytes b) \<Rightarrow> write_string stream b
                  | _ \<Rightarrow> Inl TypeError)
            else (case Input.script self of
                    Some (ScriptObj sc) \<Rightarrow> write_string stream (source sc)
                  | _ \<Rightarrow> Inl AttributeError)) (\<lambda>stream.
     write_uint32 stream (sequence self))))"

section \<open>Class \<open>Output\<close>\<close>

definition Output_init :: "int \<Rightarrow> Script \<Rightarrow> 'c Output" where
  "Output_init a scr =
     \<lparr>InputOutput.tx_ref = None, InputOutput.position = None, amount = a,
      Output.script = scr, is_my_output = None, channel = None, private_key = None\<rparr>"

definition Output_deserialize_from ::
  "ext \<Rightarrow> BCDataStream \<Rightarrow> int \<Rightarrow> error + ('c Output \<times> BCDataStream)" where
  "Output_deserialize_from X stream transaction_offset =
     bind_result (read_uint64 stream) (\<lambda>(a, stream).
     bind_result (read_compact_size stream) (\<lambda>(len, stream).
     bind_result (stream_read stream (nat len)) (\<lambda>(src, stream').
       Inr (Output_init a (OutputScript X src (int (tell stream) - transaction_offset)),
            stream'))))"

definition Output_serialize_to :: "'c Output \<Rightarrow> bytes \<Rightarrow> error + bytes" where
  "Output_serialize_to self stream =
     bind_result (write_uint64 stream (amount self)) (\<lambda>stream.
     write_string stream (source (Output.script self)))"

definition be_bytes :: "nat \<Rightarrow> nat \<Rightarrow> bytes" where
  "be_bytes k v = rev (le_bytes k v)"

text \<open>\<open>struct.pack('>I', position)\<close>: the position must be an integer of 32 bits.\<close>

definition pack_be_uint32 :: "int option \<Rightarrow> error + bytes" where
  "pack_be_uint32 v =
     (case v of None \<Rightarrow> Inl StructError
      | Some n \<Rightarrow> if 0 \<le> n \<and> n < 2 ^ 32 then Inr (be_bytes 4 (nat n)) else Inl StructError)"

text \<open>
  The property returns what the value map holds under \<open>claim_id\<close>, whatever it is, so
  the result is a \<open>script_value\<close>.
\<close>

definition claim_hash ::
  "ext \<Rightarrow> (nat \<Rightarrow> bytes) \<Rightarrow> 'c Output \<Rightarrow> error + script_value" where
  "claim_hash X H self =
     (if is_claim_name (Output.script self)
      then (case InputOutput.tx_ref self of
              None \<Rightarrow> Inl AttributeError
            | Some r \<Rightarrow>
                bind_result (pack_be_uint32 (InputOutput.position self)) (\<lambda>p.
                  Inr (Bytes (hash160 X (TXRef_hash H r @ p)))))
      else if is_update_claim (Output.script self) \<or> is_support_claim (Output.script self)
      then (case script_values (Output.script self) ''claim_id'' of
              None \<Rightarrow> Inl KeyError
            | Some v \<Rightarrow> Inr v)
      else Inl ValueError)"

section \<open>Class \<open>Transaction\<close>\<close>

definition Transaction_new ::
  "nat \<Rightarrow> bytes option \<Rightarrow> int \<Rightarrow> int \<Rightarrow> bool \<Rightarrow> int \<Rightarrow> int \<Rightarrow> int option
     \<Rightarrow> ('i, 'o) Transaction" where
  "Transaction_new me rw v lt ver h pos jd =
     \<lparr>priv_raw = rw, priv_raw_sans_segwit = None, is_segwit_flag = 0, witnesses = [],
      ref = \<lparr>priv_id = None, priv_hash = None, tx = me\<rparr>, version = v, locktime = lt,
      priv_inputs = [], priv_outputs = [], is_verified = ver, height = h,
      Transaction.position = pos, priv_day = jd\<rparr>"

definition self_ref :: "('i, 'o) Transaction \<Rightarrow> TXRef" where
  "self_ref self = TXRefMutable (tx (ref self))"

definition priv_reset :: "('i, 'o) Transaction \<Rightarrow> ('i, 'o) Transaction" where
  "priv_reset self =
     self\<lparr>priv_raw := None, priv_raw_sans_segwit := None, ref := reset (ref self)\<rparr>"

definition inputs :: "('i, 'o) Transaction \<Rightarrow> 'i list" where
  "inputs self = priv_inputs self"

definition outputs :: "('i, 'o) Transaction \<Rightarrow> 'o list" where
  "outputs self = priv_outputs self"

text \<open>
  The loop of \<open>_add\<close> over inputs or outputs held by value: each new element gets the
  transaction's reference and the current length of the list, and is appended.
\<close>

fun priv_add_loop ::
  "TXRef \<Rightarrow> 'a InputOutput_scheme list \<Rightarrow> 'a InputOutput_scheme list
     \<Rightarrow> 'a InputOutput_scheme list" where
  "priv_add_loop r existing_ios [] = existing_ios"
| "priv_add_loop r existing_ios (txio # new_ios) =
     priv_add_loop r
       (existing_ios @
          [txio\<lparr>InputOutput.tx_ref := Some r,
                InputOutput.position := Some (int (length existing_ios))\<rparr>])
       new_ios"

definition priv_add_inputs ::
  "('a InputOutput_scheme, 'o) Transaction \<Rightarrow> 'a InputOutput_scheme list \<Rightarrow> bool
     \<Rightarrow> ('a InputOutput_scheme, 'o) Transaction" where
  "priv_add_inputs self new_ios rst =
     (let self = self\<lparr>priv_inputs := priv_add_loop (self_ref self) (priv_inputs self) new_ios\<rparr>
      in if rst then priv_reset self else self)"

definition priv_add_outputs ::
  "('i, 'a InputOutput_scheme) Transaction \<Rightarrow> 'a InputOutput_scheme list \<Rightarrow> bool
     \<Rightarrow> ('i, 'a InputOutput_scheme) Transaction" where
  "priv_add_outputs self new_ios rst =
     (let self = self\<lparr>priv_outputs := priv_add_loop (self_ref self) (priv_outputs self) new_ios\<rparr>
      in if rst then priv_reset self else self)"

subsection \<open>Sums and balances\<close>

fun sum_results :: "(error + int) list \<Rightarrow> error + int" where
  "sum_results [] = Inr 0"
| "sum_results (x # xs) = bind_result x (\<lambda>a. bind_result (sum_results xs) (\<lambda>b. Inr (a + b)))"

text \<open>The amounts of the previous outputs of the inputs that have one attached.\<close>

definition resolved_amounts :: "'c Input list \<Rightarrow> int list" where
  "resolved_amounts xs =
     concat (map (\<lambda>i. case txo (txo_ref i) of None \<Rightarrow> [] | Some t \<Rightarrow> [amount t]) xs)"

definition input_sum :: "('c Input, 'o) Transaction \<Rightarrow> error + int" where
  "input_sum self =
     sum_results (map Input_amount (filter (\<lambda>i. txo (txo_ref i) \<noteq> None) (inputs self)))"

definition output_sum :: "('i, 'c Output) Transaction \<Rightarrow> error + int" where
  "output_sum self = sum_results (map (\<lambda>t. Inr (amount t)) (outputs self))"

definition fee :: "('c Input, 'd Output) Transaction \<Rightarrow> error + int" where
  "fee self =
     bind_result (input_sum self) (\<lambda>i. bind_result (output_sum self) (\<lambda>t. Inr (i - t)))"

fun balance_inputs :: "int \<Rightarrow> 'c Input list \<Rightarrow> error + int" where
  "balance_inputs balance [] = Inr balance"
| "balance_inputs balance (txi # rest) =
     (if txo (txo_ref txi) = None then balance_inputs balance rest
      else if Input_is_my_input txi = Some True
      then bind_result (Input_amount txi) (\<lambda>a. balance_inputs (balance - a) rest)
      else if Input_is_my_input txi = None then Inl ValueError
      else balance_inputs balance rest)"

fun balance_outputs :: "int \<Rightarrow> 'c Output list \<Rightarrow> error + int" where
  "balance_outputs balance [] = Inr balance"
| "balance_outputs balance (t # rest) =
     (if is_my_output t = Some True then balance_outputs (balance + amount t) rest
      else if is_my_output t = None then Inl ValueError
      else balance_outputs balance rest)"

definition net_account_balance :: "('c Input, 'd Output) Transaction \<Rightarrow> error + int" where
  "net_account_balance self =
     bind_result (balance_inputs 0 (inputs self)) (\<lambda>balance.
       balance_outputs balance (outputs self))"

subsection \<open>Serialization\<close>

definition priv_serialize ::
  "(nat \<Rightarrow> bytes) \<Rightarrow> ('c Input, 'd Output) Transaction \<Rightarrow> bool \<Rightarrow> bool \<Rightarrow> error + bytes" where
  "priv_serialize H self with_inputs sans_segwit =
     bind_result (write_uint32 [] (version self)) (\<lambda>stream.
     bind_result
       (if with_inputs
        then bind_result (write_compact_size stream (int (length (priv_inputs self))))
               (\<lambda>stream. write_each (\<lambda>stream txin. Input_serialize_to H txin stream None)
                   stream (priv_inputs self))
        else Inr stream) (\<lambda>stream.
     bind_result (write_compact_size stream (int (length (priv_outputs self)))) (\<lambda>stream.
     bind_result
       (write_each (\<lambda>stream txout. Output_serialize_to txout stream) stream
          (priv_outputs self)) (\<lambda>stream.
     write_uint32 stream (locktime self)))))"

definition signature_hash_type :: "int \<Rightarrow> int" where
  "signature_hash_type hash_type = hash_type"

fun write_signing_inputs ::
  "(nat \<Rightarrow> bytes) \<Rightarrow> int \<Rightarrow> int \<Rightarrow> bytes \<Rightarrow> 'c Input list \<Rightarrow> error + bytes" where
  "write_signing_inputs H signing_input i stream [] = Inr stream"
| "write_signing_inputs H signing_input i stream (txin # rest) =
     bind_result
       (if signing_input = i
        then (case txo (txo_ref txin) of
                None \<Rightarrow> Inl AssertionError
              | Some t \<Rightarrow> Input_serialize_to H txin stream (Some (source (Output.script t))))
        else Input_serialize_to H txin stream (Some []))
       (\<lambda>stream. write_signing_inputs H signing_input (i + 1) stream rest)"

definition priv_serialize_for_signature ::
  "(nat \<Rightarrow> bytes) \<Rightarrow> ('c Input, 'd Output) Transaction \<Rightarrow> int \<Rightarrow> error + bytes" where
  "priv_serialize_for_signature H self signing_input =
     bind_result (write_uint32 [] (version self)) (\<lambda>stream.
     bind_result (write_compact_size stream (int (length (priv_inputs self)))) (\<lambda>stream.
     bind_result (write_signing_inputs H signing_input 0 stream (priv_inputs self)) (\<lambda>stream.
     bind_result (write_compact_size stream (int (length (priv_outputs self)))) (\<lambda>stream.
     bind_result
       (write_each (\<lambda>stream txout. Output_serialize_to txout stream) stream
          (priv_outputs self)) (\<lambda>stream.
     bind_result (write_uint32 stream (locktime self)) (\<lambda>stream.
     write_uint32 stream (signature_hash_type 1)))))))"

subsection \<open>Deserialization\<close>

definition read_witness_stack :: "BCDataStream \<Rightarrow> error + (bytes list \<times> BCDataStream)" where
  "read_witness_stack stream =
     bind_result (read_compact_size stream) (\<lambda>(n, stream).
       read_many read_string (nat n) stream)"

definition deserialize_stream ::
  "ext \<Rightarrow> (nat \<Rightarrow> bytes) \<Rightarrow> ('c Input, 'd Output) Transaction \<Rightarrow> BCDataStream
     \<Rightarrow> error + ('c Input, 'd Output) Transaction" where
  "deserialize_stream X H self stream =
     (let start = tell stream in
      bind_result (read_uint32 stream) (\<lambda>(v, stream).
      bind_result (read_compact_size stream) (\<lambda>(input_count, stream).
      bind_result
        (if input_count = 0
         then bind_result (read_uint8 stream) (\<lambda>(flag, stream).
              bind_result (read_compact_size stream) (\<lambda>(input_count, stream).
                Inr (flag, input_count, stream)))
         else Inr (is_segwit_flag self, input_count, stream)) (\<lambda>(flag, input_count, stream).
      bind_result (read_many (Input_deserialize_from X H) (nat input_count) stream)
        (\<lambda>(ins, stream).
      bind_result (read_compact_size stream) (\<lambda>(output_count, stream).
      bind_result
        (read_many (\<lambda>stream. Output_deserialize_from X stream (int start))
           (nat output_count) stream) (\<lambda>(outs, stream).
      bind_result
        (if flag \<noteq> 0
         then bind_result (read_many read_witness_stack (nat input_count) stream)
                (\<lambda>(ws, stream). Inr (concat ws, stream))
         else Inr (witnesses self, stream)) (\<lambda>(wits, stream).
      bind_result (read_uint32 stream) (\<lambda>(lt, stream).
        Inr ((priv_add_outputs
                (priv_add_inputs (self\<lparr>version := v, is_segwit_flag := flag\<rparr>) ins False)
                outs False)
             \<lparr>witnesses := wits, locktime := lt\<rparr>))))))))))"

definition deserialize ::
  "ext \<Rightarrow> (nat \<Rightarrow> bytes) \<Rightarrow> ('c Input, 'd Output) Transaction \<Rightarrow> BCDataStream option
     \<Rightarrow> error + ('c Input, 'd Output) Transaction" where
  "deserialize X H self stream =
     (case stream of
        Some st \<Rightarrow> deserialize_stream X H self st
      | None \<Rightarrow>
          (case priv_raw self of
             Some rw \<Rightarrow> deserialize_stream X H self (BCDataStream_init rw)
           | None \<Rightarrow> Inr self))"

definition Transaction_init ::
  "ext \<Rightarrow> (nat \<Rightarrow> bytes) \<Rightarrow> nat \<Rightarrow> bytes option \<Rightarrow> int \<Rightarrow> int \<Rightarrow> bool \<Rightarrow> int \<Rightarrow> int
     \<Rightarrow> int option \<Rightarrow> error + ('c Input, 'd Output) Transaction" where
  "Transaction_init X H me rw v lt ver h pos jd =
     (if rw \<noteq> None then deserialize X H (Transaction_new me rw v lt ver h pos jd) None
      else Inr (Transaction_new me rw v lt ver h pos jd))"

subsection \<open>The cached properties \<open>raw\<close> and \<open>raw_sans_segwit\<close>\<close>

text \<open>Each returns its value and the transaction with the cache filled.\<close>

definition raw ::
  "(nat \<Rightarrow> bytes) \<Rightarrow> ('c Input, 'd Output) Transaction
     \<Rightarrow> error + (bytes \<times> ('c Input, 'd Output) Transaction)" where
  "raw H self =
     (case priv_raw self of
        None \<Rightarrow> bind_result (priv_serialize H self True False)
                  (\<lambda>b. Inr (b, self\<lparr>priv_raw := Some b\<rparr>))
      | Some b \<Rightarrow> Inr (b, self))"

definition raw_sans_segwit ::
  "(nat \<Rightarrow> bytes) \<Rightarrow> ('c Input, 'd Output) Transaction
     \<Rightarrow> error + (bytes \<times> ('c Input, 'd Output) Transaction)" where
  "raw_sans_segwit H self =
     (if is_segwit_flag self \<noteq> 0
      then (case priv_raw_sans_segwit self of
              None \<Rightarrow> bind_result (priv_serialize H self True True)
                        (\<lambda>b. Inr (b, self\<lparr>priv_raw_sans_segwit := Some b\<rparr>))
            | Some b \<Rightarrow> Inr (b, self))
      else raw H self)"

section \<open>What the wire carries\<close>

text \<open>
  The serialized fields of an input are the hash of the previous transaction, the
  position of the previous output, the bytes of the script field (the coinbase bytes of a
  coinbase input, the source of the script otherwise; \<open>None\<close> when the input holds
  neither in a form that \<open>serialize_to\<close> can write) and the sequence. The serialized
  fields of an output are its amount and the source of its script.
\<close>

definition Input_script_bytes :: "'c Input \<Rightarrow> bytes option" where
  "Input_script_bytes i =
     (if is_coinbase i
      then (case coinbase i of Some (RawBytes b) \<Rightarrow> Some b | _ \<Rightarrow> None)
      else (case Input.script i of Some (ScriptObj sc) \<Rightarrow> Some (source sc) | _ \<Rightarrow> None))"

definition wire_input :: "(nat \<Rightarrow> bytes) \<Rightarrow> 'c Input \<Rightarrow> bytes \<times> int \<times> bytes option \<times> int" where
  "wire_input H i =
     (TXRef_hash H (TXORef.tx_ref (txo_ref i)), TXORef.position (txo_ref i),
      Input_script_bytes i, sequence i)"

definition wire_output :: "'c Output \<Rightarrow> int \<times> bytes" where
  "wire_output t = (amount t, source (Output.script t))"

definition wire_transaction ::
  "(nat \<Rightarrow> bytes) \<Rightarrow> ('c Input, 'd Output) Transaction
     \<Rightarrow> int \<times> (bytes \<times> int \<times> bytes option \<times> int) list \<times> (int \<times> bytes) list \<times> int" where
  "wire_transaction H self =
     (version self, map (wire_input H) (inputs self), map wire_output (outputs self),
      locktime self)"

section \<open>The signature pre-image in the words of the specification\<close>

text \<open>
  Section 4.5: the pre-image for input \<open>i\<close> is the canonical serialization, except that
  the script field of input \<open>i\<close> is the script source of the previous output and the
  script field of every other input is empty, followed by the sighash type 1 as a \<open>u32\<close>.
  \<open>with_script_bytes\<close> is an input whose script field holds the given bytes.
\<close>

definition with_script_bytes :: "'c Input \<Rightarrow> bytes \<Rightarrow> 'c Input" where
  "with_script_bytes txin b =
     txin\<lparr>coinbase := None,
          Input.script :=
            Some (ScriptObj \<lparr>source = b, offset = 0, template = Other,
                            script_values = (\<lambda>k. None)\<rparr>)\<rparr>"

definition signing_inputs :: "nat \<Rightarrow> bytes \<Rightarrow> 'c Input list \<Rightarrow> 'c Input list" where
  "signing_inputs i src ins =
     map (\<lambda>(j, txin). with_script_bytes txin (if j = i then src else [])) (enumerate 0 ins)"

definition spec_preimage ::
  "(nat \<Rightarrow> bytes) \<Rightarrow> ('c Input, 'd Output) Transaction \<Rightarrow> nat \<Rightarrow> bytes \<Rightarrow> error + bytes" where
  "spec_preimage H self i src =
     bind_result
       (priv_serialize H (self\<lparr>priv_inputs := signing_inputs i src (priv_inputs self)\<rparr>)
          True False)
       (\<lambda>stream. write_uint32 stream 1)"

text \<open>
  A reader reads an encoding \<open>e\<close> as a value with property \<open>P\<close> when, wherever \<open>e\<close>
  starts and whatever follows it, the reader returns such a value and leaves the cursor
  right behind \<open>e\<close>.
\<close>

definition reads_as ::
  "(BCDataStream \<Rightarrow> error + ('a \<times> BCDataStream)) \<Rightarrow> bytes \<Rightarrow> ('a \<Rightarrow> bool) \<Rightarrow> bool" where
  "reads_as r e P =
     (\<forall>p rest. \<exists>x. r \<lparr>tell = p, unread = e @ rest\<rparr>
                      = Inr (x, \<lparr>tell = p + length e, unread = rest\<rparr>) \<and> P x)"

section \<open>Signing a claim\<close>

definition is_claim :: "'c Output \<Rightarrow> bool" where
  "is_claim self = (is_claim_name (Output.script self) \<or> is_update_claim (Output.script self))"

text \<open>
  The claim payload is an object held in the value map of the script. Assigning to one of
  its attributes changes that object in place; \<open>set_claim\<close> puts the changed payload
  back under the key \<open>claim\<close>.
\<close>

definition set_claim :: "'c Output \<Rightarrow> Claim \<Rightarrow> 'c Output" where
  "set_claim self c =
     self\<lparr>Output.script :=
            (Output.script self)\<lparr>script_values :=
              (script_values (Output.script self))(''claim'' := Some (Parsed c))\<rparr>\<rparr>"

text \<open>
  The property \<open>claim\<close> parses the payload on first use and keeps the parsed payload in
  the value map; it returns the payload and the output with the map updated.
\<close>

definition Output_claim :: "ext \<Rightarrow> 'c Output \<Rightarrow> error + (Claim \<times> 'c Output)" where
  "Output_claim X self =
     (if is_claim self
      then (case script_values (Output.script self) ''claim'' of
              None \<Rightarrow> Inl KeyError
            | Some (Parsed c) \<Rightarrow> Inr (c, self)
            | Some (Bytes b) \<Rightarrow>
                bind_result (claim_from_bytes X b) (\<lambda>c. Inr (c, set_claim self c)))
      else Inl ValueError)"

text \<open>\<open>TXORef.hash\<close>: the hash of the transaction followed by the packed position.\<close>

definition TXORef_hash :: "(nat \<Rightarrow> bytes) \<Rightarrow> 'o TXORef \<Rightarrow> error + bytes" where
  "TXORef_hash H r =
     (if 0 \<le> TXORef.position r \<and> TXORef.position r < 2 ^ 32
      then Inr (TXRef_hash H (TXORef.tx_ref r) @ le_bytes 4 (nat (TXORef.position r)))
      else Inl StructError)"

text \<open>
  \<open>first_input_id or self.tx_ref.tx.inputs[0].txo_ref.hash\<close>. The inputs of the live
  transaction that a mutable reference points to are read from \<open>live\<close>.
\<close>

definition first_input_hash ::
  "(nat \<Rightarrow> bytes) \<Rightarrow> (nat \<Rightarrow> 'i Input list) \<Rightarrow> 'c Output \<Rightarrow> bytes option \<Rightarrow> error + bytes" where
  "first_input_hash H live self first_input_id =
     (if first_input_id \<noteq> None \<and> first_input_id \<noteq> Some []
      then (case first_input_id of Some b \<Rightarrow> Inr b | None \<Rightarrow> Inl TypeError)
      else (case InputOutput.tx_ref self of
              None \<Rightarrow> Inl AttributeError
            | Some (TXRefImmutable h ht) \<Rightarrow> Inl AttributeError
            | Some (TXRefMutable t) \<Rightarrow>
                (case live t of
                   [] \<Rightarrow> Inl IndexError
                 | txi # rest \<Rightarrow> TXORef_hash H (txo_ref txi))))"

definition sign ::
  "ext \<Rightarrow> (nat \<Rightarrow> bytes) \<Rightarrow> (nat \<Rightarrow> 'i Input list) \<Rightarrow> 'e Output Output \<Rightarrow> 'e Output
     \<Rightarrow> bytes option \<Rightarrow> error + 'e Output Output" where
  "sign X H live self chan first_input_id =
     (let self = self\<lparr>channel := Some chan\<rparr> in
      bind_result (claim_hash X H chan) (\<lambda>ch.
      bind_result (Output_claim X self) (\<lambda>(c, self).
      bind_result (first_input_hash H live self first_input_id) (\<lambda>first.
      bind_result (case ch of Bytes b \<Rightarrow> Inr b | Parsed p \<Rightarrow> Inl TypeError) (\<lambda>chb.
      let c = c\<lparr>signing_channel_hash := Some chb\<rparr>;
          digest = sha256 X (first @ chb @ to_message_bytes X c)
      in bind_result
           (case private_key chan of
              None \<Rightarrow> Inl AttributeError
            | Some k \<Rightarrow> Inr (sign_digest_deterministic X k digest)) (\<lambda>sg.
         let self = set_claim self (c\<lparr>signature := Some sg\<rparr>)
         in Inr (self\<lparr>Output.script := generate X (Output.script self)\<rparr>)))))))"

definition clear_signature :: "ext \<Rightarrow> 'c Output \<Rightarrow> error + 'c Output" where
  "clear_signature X self =
     (let self = self\<lparr>channel := None\<rparr> in
      bind_result (Output_claim X self) (\<lambda>(c, self).
        Inr (set_claim self (claim_clear_signature X c))))"

text \<open>
  The script bytes of an output, and the bytes that \<open>script.generate()\<close> would give it
  from its present value map.
\<close>

definition script_source :: "'c Output \<Rightarrow> bytes" where
  "script_source self = source (Output.script self)"

definition regenerated :: "ext \<Rightarrow> 'c Output \<Rightarrow> bytes" where
  "regenerated X self = source (generate X (Output.script self))"

section \<open>Inputs and outputs as shared objects\<close>

text \<open>
  \<open>add_inputs\<close> and \<open>add_outputs\<close> receive references to objects that the caller goes
  on holding, and \<open>_add\<close> writes \<open>tx_ref\<close> and \<open>position\<close> into those very objects.
  To follow that, a transaction here holds references (the identities of the objects, as
  naturals) and a store gives the slots of every object.
\<close>

record 'c heap =
  tx_obj :: "(nat, nat) Transaction"
  input_at :: "nat \<Rightarrow> 'c Input"
  output_at :: "nat \<Rightarrow> 'c Output"

fun priv_add ::
  "TXRef \<Rightarrow> (nat \<Rightarrow> 'a InputOutput_scheme) \<Rightarrow> nat list \<Rightarrow> nat list
     \<Rightarrow> (nat \<Rightarrow> 'a InputOutput_scheme) \<times> nat list" where
  "priv_add r objs existing_ios [] = (objs, existing_ios)"
| "priv_add r objs existing_ios (txio # new_ios) =
     priv_add r
       (objs(txio := (objs txio)\<lparr>InputOutput.tx_ref := Some r,
                                  InputOutput.position := Some (int (length existing_ios))\<rparr>))
       (existing_ios @ [txio]) new_ios"

definition add_inputs :: "'c heap \<Rightarrow> nat list \<Rightarrow> 'c heap" where
  "add_inputs w new_ios =
     (case priv_add (self_ref (tx_obj w)) (input_at w) (priv_inputs (tx_obj w)) new_ios of
        (objs, ios) \<Rightarrow>
          w\<lparr>input_at := objs, tx_obj := priv_reset ((tx_obj w)\<lparr>priv_inputs := ios\<rparr>)\<rparr>)"

definition add_outputs :: "'c heap \<Rightarrow> nat list \<Rightarrow> 'c heap" where
  "add_outputs w new_ios =
     (case priv_add (self_ref (tx_obj w)) (output_at w) (priv_outputs (tx_obj w)) new_ios of
        (objs, ios) \<Rightarrow>
          w\<lparr>output_at := objs, tx_obj := priv_reset ((tx_obj w)\<lparr>priv_outputs := ios\<rparr>)\<rparr>)"

text \<open>A sequence of calls on one transaction.\<close>

datatype call = AddInputs "nat list" | AddOutputs "nat list"

fun run_call :: "'c heap \<Rightarrow> call \<Rightarrow> 'c heap" where
  "run_call w (AddInputs new_ios) = add_inputs w new_ios"
| "run_call w (AddOutputs new_ios) = add_outputs w new_ios"

fun run_calls :: "'c heap \<Rightarrow> call list \<Rightarrow> 'c heap" where
  "run_calls w [] = w"
| "run_calls w (c # cs) = run_calls (run_call w c) cs"

fun added_inputs :: "call list \<Rightarrow> nat list" where
  "added_inputs [] = []"
| "added_inputs (AddInputs new_ios # cs) = new_ios @ added_inputs cs"
| "added_inputs (AddOutputs new_ios # cs) = added_inputs cs"

fun added_outputs :: "call list \<Rightarrow> nat list" where
  "added_outputs [] = []"
| "added_outputs (AddInputs new_ios # cs) = added_outputs cs"
| "added_outputs (AddOutputs new_ios # cs) = new_ios @ added_outputs cs"

text \<open>
  Position consistency of a list of references: the object at index \<open>i\<close> has position
  \<open>i\<close> and the reference \<open>r\<close> of the transaction.
\<close>

definition consistent :: "(nat \<Rightarrow> 'a InputOutput_scheme) \<Rightarrow> TXRef \<Rightarrow> nat list \<Rightarrow> bool" where
  "consistent objs r ios =
     (\<forall>i < length ios.
        InputOutput.position (objs (ios ! i)) = Some (int i) \<and>
        InputOutput.tx_ref (objs (ios ! i)) = Some r)"

definition attached :: "'c heap \<Rightarrow> bool" where
  "attached w =
     (distinct (priv_inputs (tx_obj w)) \<and> distinct (priv_outputs (tx_obj w)) \<and>
      consistent (input_at w) (self_ref (tx_obj w)) (inputs (tx_obj w)) \<and>
      consistent (output_at w) (self_ref (tx_obj w)) (outputs (tx_obj w)))"

definition caches_empty :: "('i, 'o) Transaction \<Rightarrow> bool" where
  "caches_empty self =
     (priv_raw self = None \<and> priv_raw_sans_segwit self = None \<and>
      priv_id (ref self) = None \<and> priv_hash (ref self) = None)"

section \<open>The block index: \<open>database.py\<close>\<close>

text \<open>
  \<open>sync_get_block_files\<close> hands SQL text to SQLite. The model gives that text its
  meaning on the table \<open>block_info\<close> held as a list of rows: \<open>WHERE\<close> keeps rows,
  \<open>GROUP BY file\<close> collects the kept rows of each file, \<open>COUNT\<close>, \<open>SUM\<close> and \<open>MAX\<close>
  are computed over each group, and \<open>ORDER BY file ASC\<close> lists the groups by ascending
  file. The columns read are taken to be integer columns without \<open>NULL\<close>; an integer is
  true in a \<open>WHERE\<close> clause when it is not 0. The column \<open>file\<close> is the field
  \<open>file_col\<close>, since \<open>file\<close> is a keyword of Isabelle, and the parameter \<open>file_number\<close> is
  \<open>file_arg\<close>, since the result rows have a column of that name.

  SQLite integers have 64 bits. Binding a Python integer outside that range as a query
  parameter raises \<open>OverflowError\<close> before the query runs, and \<open>SUM\<close> over integers
  raises \<open>OperationalError\<close> (integer overflow) as soon as its running total leaves the
  range. The rows of a group are summed in the order of the list.
\<close>

record block_info =
  file_col :: int
  hash :: bytes
  txcount :: int
  height :: int
  status :: int

record block_file =
  file_number :: int
  blocks :: int
  txs :: int
  max_height :: int

definition int64 :: "int \<Rightarrow> bool" where
  "int64 v = (- (2 ^ 63) \<le> v \<and> v < 2 ^ 63)"

fun sqlite_sum :: "int \<Rightarrow> int list \<Rightarrow> error + int" where
  "sqlite_sum acc [] = Inr acc"
| "sqlite_sum acc (v # vs) =
     (if int64 (acc + v) then sqlite_sum (acc + v) vs else Inl OperationalError)"

definition where_clause :: "int option \<Rightarrow> int option \<Rightarrow> block_info \<Rightarrow> bool" where
  "where_clause file_arg above_height r =
     ((status r AND 1 \<noteq> 0 \<and> status r AND 4 \<noteq> 0) \<and>
      (case file_arg of
         None \<Rightarrow> True
       | Some f \<Rightarrow>
           (case above_height of
              None \<Rightarrow> True
            | Some h \<Rightarrow> file_col r = f \<and> block_info.height r > h)))"

definition group_by_file :: "block_info list \<Rightarrow> int \<Rightarrow> error + block_file" where
  "group_by_file rows f =
     (let g = filter (\<lambda>r. file_col r = f) rows
      in bind_result (sqlite_sum 0 (map txcount g)) (\<lambda>acc.
           Inr \<lparr>file_number = f, blocks = int (length g), txs = acc,
                max_height = Max (set (map block_info.height g))\<rparr>))"

fun all_results :: "(error + 'a) list \<Rightarrow> error + 'a list" where
  "all_results [] = Inr []"
| "all_results (x # xs) =
     bind_result x (\<lambda>y. bind_result (all_results xs) (\<lambda>ys. Inr (y # ys)))"

text \<open>The parameters are bound only when both are given.\<close>

definition bindable :: "int option \<Rightarrow> int option \<Rightarrow> bool" where
  "bindable file_arg above_height =
     (case file_arg of
        None \<Rightarrow> True
      | Some f \<Rightarrow> (case above_height of None \<Rightarrow> True | Some h \<Rightarrow> int64 f \<and> int64 h))"

definition sync_get_block_files ::
  "block_info list \<Rightarrow> int option \<Rightarrow> int option \<Rightarrow> error + block_file list" where
  "sync_get_block_files table file_arg above_height =
     (if \<not> bindable file_arg above_height then Inl OverflowError
      else (let rows = filter (where_clause file_arg above_height) table
            in all_results (map (group_by_file rows) (sort (remdups (map file_col rows))))))"

text \<open>
  The rows that the claim speaks of: status bits 0 and 2 both set and, when both filters
  are given, the given file and a height above the given one.
\<close>

definition kept :: "int option \<Rightarrow> int option \<Rightarrow> block_info \<Rightarrow> bool" where
  "kept file_arg above_height r =
     (bit (status r) 0 \<and> bit (status r) 2 \<and>
      (file_arg = None \<or> above_height = None \<or>
       (file_arg = Some (file_col r) \<and> (\<exists>h. above_height = Some h \<and> h < block_info.height r))))"

section \<open>Concrete transactions\<close>

text \<open>
  Small transactions on which the theorems below are exercised. No live transaction is
  referenced by hash in them, so the environment of hashes is empty.
\<close>

definition no_hashes :: "nat \<Rightarrow> bytes" where
  "no_hashes t = []"

definition unresolved_input :: "unit Input" where
  "unresolved_input = create_coinbase no_hashes"

definition tx_unresolved :: "(unit Input, unit Output) Transaction" where
  "tx_unresolved =
     priv_add_inputs (Transaction_new 0 None 1 0 False (- 2) (- 1) None)
       [unresolved_input] True"

definition prev_hash :: bytes where
  "prev_hash = replicate 32 0x11"

definition plain_script :: Script where
  "plain_script =
     \<lparr>source = [0x51], offset = 0, template = Other, script_values = (\<lambda>k. None)\<rparr>"

definition spent_output :: "bool option \<Rightarrow> unit Output" where
  "spent_output mine =
     \<lparr>InputOutput.tx_ref = Some (TXRefImmutable prev_hash 5), InputOutput.position = Some 0,
      amount = 7, Output.script = plain_script, is_my_output = mine, channel = None,
      private_key = None\<rparr>"

definition resolved_input :: "bool option \<Rightarrow> unit Input" where
  "resolved_input mine =
     \<lparr>InputOutput.tx_ref = None, InputOutput.position = None,
      txo_ref = \<lparr>TXORef.tx_ref = TXRefImmutable prev_hash 5, TXORef.position = 0,
                 txo = Some (spent_output mine)\<rparr>,
      sequence = 0xFFFFFFFF, coinbase = None,
      Input.script = Some (ScriptObj plain_script)\<rparr>"

definition paying_output :: "unit Output" where
  "paying_output = (Output_init 5 plain_script)\<lparr>is_my_output := Some True\<rparr>"

definition tx_mixed :: "bool option \<Rightarrow> (unit Input, unit Output) Transaction" where
  "tx_mixed mine =
     priv_add_outputs
       (priv_add_inputs (Transaction_new 0 None 1 0 False (- 2) (- 1) None)
          [unresolved_input, resolved_input mine] True)
       [paying_output] True"

definition tx_unset :: "(unit Input, unit Output) Transaction" where
  "tx_unset =
     (Transaction_new 0 None 1 0 False (- 2) (- 1) None)
       \<lparr>priv_inputs := [unresolved_input, resolved_input None]\<rparr>"

text \<open>
  A stand-in for the external collaborators, used only to instantiate theorems at
  concrete inputs: scripts that carry nothing but a claim payload, a claim codec that
  writes a flag, the signature and the message, and hashes that copy their input.
\<close>

definition toy_ext :: ext where
  "toy_ext =
     \<lparr>parse_input_script = (\<lambda>b. (Other, (\<lambda>k. None))),
      parse_output_script = (\<lambda>b. (Other, (\<lambda>k. None))),
      assemble = (\<lambda>t vs. case vs ''claim'' of
                    None \<Rightarrow> []
                  | Some (Bytes b) \<Rightarrow> b
                  | Some (Parsed c) \<Rightarrow>
                      (case signature c of None \<Rightarrow> [0] | Some sg \<Rightarrow> 1 # sg) @ message c),
      sha256 = (\<lambda>b. b),
      hash160 = take 20,
      claim_from_bytes =
        (\<lambda>b. Inr \<lparr>message = b, signing_channel_hash = None, signature = None,
                   unsigned_payload = None\<rparr>),
      to_message_bytes = message,
      claim_clear_signature = (\<lambda>c. c\<lparr>signing_channel_hash := None, signature := None\<rparr>),
      sign_digest_deterministic = (\<lambda>k d. k @ d)\<rparr>"

text \<open>
  The same stand-in with a \<open>hash160\<close> that keeps the last 20 bytes of its input, so
  that the bytes of the position show in the result; and an output at position 258 of its
  transaction.
\<close>

definition tail_ext :: ext where
  "tail_ext = toy_ext\<lparr>hash160 := drop 16\<rparr>"

definition attached_output :: "template \<Rightarrow> unit Output" where
  "attached_output t =
     \<lparr>InputOutput.tx_ref = Some (TXRefImmutable prev_hash 5), InputOutput.position = Some 258,
      amount = 7,
      Output.script =
        \<lparr>source = [0x51], offset = 0, template = t,
         script_values = (\<lambda>k. if k = ''claim_id'' then Some (Bytes (replicate 20 0x22)) else None)\<rparr>,
      is_my_output = None, channel = None, private_key = None\<rparr>"

definition tx_no_inputs :: "(unit Input, unit Output) Transaction" where
  "tx_no_inputs =
     priv_add_outputs (Transaction_new 0 None 1 0 False (- 2) (- 1) None)
       [Output_init 0 plain_script] True"

definition tx_no_inputs_bytes :: bytes where
  "tx_no_inputs_bytes =
     [1, 0, 0, 0, 0, 1, 0, 0, 0, 0, 0, 0, 0, 0, 1, 0x51, 0, 0, 0, 0]"

text \<open>
  A transaction in the segwit wire form: version 1, marker 0 and flag 1, one input
  spending output 0 of the transaction with hash \<open>prev_hash\<close> with an empty script, one
  output of 5 units, one witness stack holding one item of two bytes, locktime 0. The
  second list is the same transaction without marker, flag and witness stack.
\<close>

definition segwit_bytes :: bytes where
  "segwit_bytes =
     [1, 0, 0, 0, 0, 1, 1] @ prev_hash @ [0, 0, 0, 0, 0, 0xFF, 0xFF, 0xFF, 0xFF]
     @ [1, 5, 0, 0, 0, 0, 0, 0, 0, 1, 0x51] @ [1, 2, 0xAA, 0xBB] @ [0, 0, 0, 0]"

definition stripped_bytes :: bytes where
  "stripped_bytes =
     [1, 0, 0, 0, 1] @ prev_hash @ [0, 0, 0, 0, 0, 0xFF, 0xFF, 0xFF, 0xFF]
     @ [1, 5, 0, 0, 0, 0, 0, 0, 0, 1, 0x51] @ [0, 0, 0, 0]"

definition tx_no_inputs_parsed :: "error + (unit Input, unit Output) Transaction" where
  "tx_no_inputs_parsed =
     Transaction_init toy_ext no_hashes 1 (Some tx_no_inputs_bytes) 1 0 False (- 2) (- 1) None"

definition tx_mixed_bytes :: bytes where
  "tx_mixed_bytes =
     [1, 0, 0, 0, 2]
     @ replicate 32 0 @ [0, 0, 0, 0, 4, 0x62, 0x65, 0x65, 0x66, 0xFF, 0xFF, 0xFF, 0xFF]
     @ prev_hash @ [0, 0, 0, 0, 1, 0x51, 0xFF, 0xFF, 0xFF, 0xFF]
     @ [1, 5, 0, 0, 0, 0, 0, 0, 0, 1, 0x51] @ [0, 0, 0, 0]"

definition tx_mixed_parsed :: "error + (unit Input, unit Output) Transaction" where
  "tx_mixed_parsed =
     Transaction_init toy_ext no_hashes 1 (Some tx_mixed_bytes) 1 0 False (- 2) (- 1) None"

text \<open>What the constructor makes of \<open>segwit_bytes\<close>, written out.\<close>

definition segwit_parsed :: "(unit Input, unit Output) Transaction" where
  "segwit_parsed =
     \<lparr>priv_raw = Some segwit_bytes, priv_raw_sans_segwit = None, is_segwit_flag = 1,
      witnesses = [[0xAA, 0xBB]], ref = \<lparr>priv_id = None, priv_hash = None, tx = 1\<rparr>,
      version = 1, locktime = 0,
      priv_inputs =
        [\<lparr>InputOutput.tx_ref = Some (TXRefMutable 1), InputOutput.position = Some 0,
          txo_ref = \<lparr>TXORef.tx_ref = TXRefImmutable prev_hash (- 1), TXORef.position = 0,
                     txo = None\<rparr>,
          sequence = 0xFFFFFFFF, coinbase = None,
          Input.script =
            Some (ScriptObj \<lparr>source = [], offset = 0, template = Other,
                            script_values = (\<lambda>k. None)\<rparr>)\<rparr>],
      priv_outputs =
        [\<lparr>InputOutput.tx_ref = Some (TXRefMutable 1), InputOutput.position = Some 0,
          amount = 5,
          Output.script = \<lparr>source = [0x51], offset = 58, template = Other,
                           script_values = (\<lambda>k. None)\<rparr>,
          is_my_output = None, channel = None, private_key = None\<rparr>],
      is_verified = False, height = - 2, Transaction.position = - 1, priv_day = None\<rparr>"

definition tx_mixed_segwit :: "(unit Input, unit Output) Transaction" where
  "tx_mixed_segwit = (tx_mixed (Some True))\<lparr>is_segwit_flag := 1\<rparr>"

definition tx_mixed_preimage :: bytes where
  "tx_mixed_preimage =
     [1, 0, 0, 0, 2]
     @ replicate 32 0 @ [0, 0, 0, 0, 0, 0xFF, 0xFF, 0xFF, 0xFF]
     @ prev_hash @ [0, 0, 0, 0, 1, 0x51, 0xFF, 0xFF, 0xFF, 0xFF]
     @ [1, 5, 0, 0, 0, 0, 0, 0, 0, 1, 0x51] @ [0, 0, 0, 0] @ [1, 0, 0, 0]"

text \<open>A fresh transaction and a store in which every object is a new coinbase input.\<close>

definition fresh_heap :: "unit heap" where
  "fresh_heap =
     \<lparr>tx_obj = Transaction_new 0 None 1 0 False (- 2) (- 1) None,
      input_at = (\<lambda>a. unresolved_input),
      output_at = (\<lambda>a. paying_output)\<rparr>"

definition three_calls :: "call list" where
  "three_calls = [AddInputs [3, 1], AddOutputs [2], AddInputs [4]]"

definition added_twice :: "unit heap" where
  "added_twice = run_calls fresh_heap [AddInputs [5, 5]]"

text \<open>
  A channel with a private key, a claim to be signed by it, the claim after \<open>sign\<close>, and
  the signed claim after \<open>clear_signature\<close>.
\<close>

definition channel_output :: "unit Output" where
  "channel_output =
     \<lparr>InputOutput.tx_ref = Some (TXRefImmutable prev_hash 5), InputOutput.position = Some 1,
      amount = 7,
      Output.script =
        \<lparr>source = [0, 0x0C], offset = 0, template = ClaimName,
         script_values = (\<lambda>k. if k = ''claim'' then Some (Bytes [0x0C]) else None)\<rparr>,
      is_my_output = None, channel = None, private_key = Some [0x09]\<rparr>"

definition stream_output :: "unit Output Output" where
  "stream_output =
     \<lparr>InputOutput.tx_ref = Some (TXRefImmutable prev_hash 5), InputOutput.position = Some 0,
      amount = 7,
      Output.script =
        \<lparr>source = [0, 0x07], offset = 0, template = ClaimName,
         script_values = (\<lambda>k. if k = ''claim'' then Some (Bytes [0x07]) else None)\<rparr>,
      is_my_output = None, channel = None, private_key = None\<rparr>"

definition no_live :: "nat \<Rightarrow> unit Input list" where
  "no_live t = []"

definition signed_output :: "error + unit Output Output" where
  "signed_output = sign toy_ext no_hashes no_live stream_output channel_output (Some [0x01])"

definition cleared_output :: "error + unit Output Output" where
  "cleared_output = bind_result signed_output (clear_signature toy_ext)"

definition signed_bytes :: bytes where
  "signed_bytes = [1, 0x09, 0x01] @ replicate 20 0x11 @ [0x07, 0x07]"

text \<open>A block index with five blocks in three files.\<close>

definition some_blocks :: "block_info list" where
  "some_blocks =
     [\<lparr>file_col = 1, hash = [1], txcount = 3, block_info.height = 10, status = 5\<rparr>,
      \<lparr>file_col = 0, hash = [2], txcount = 2, block_info.height = 7, status = 29\<rparr>,
      \<lparr>file_col = 1, hash = [3], txcount = 4, block_info.height = 12, status = 7\<rparr>,
      \<lparr>file_col = 1, hash = [4], txcount = 9, block_info.height = 20, status = 1\<rparr>,
      \<lparr>file_col = 2, hash = [5], txcount = 1, block_info.height = 30, status = 4\<rparr>]"

text \<open>Two blocks of one file whose transaction counts add up to \<open>2 ^ 63\<close>.\<close>

definition huge_blocks :: "block_info list" where
  "huge_blocks =
     [\<lparr>file_col = 0, hash = [1], txcount = 2 ^ 62, block_info.height = 1, status = 5\<rparr>,
      \<lparr>file_col = 0, hash = [2], txcount = 2 ^ 62, block_info.height = 2, status = 5\<rparr>]"

section \<open>Little-endian integers\<close>

lemma le_bytes_numeral:
  "le_bytes (numeral n) v = of_nat (v mod 256) # le_bytes (pred_numeral n) (v div 256)"
proof -
  have "le_bytes (Suc (pred_numeral n)) v
      = of_nat (v mod 256) # le_bytes (pred_numeral n) (v div 256)"
    by (rule le_bytes.simps(2))
  moreover have "numeral n = Suc (pred_numeral n)"
    by (rule numeral_eq_Suc)
  ultimately show ?thesis by (simp only:)
qed

lemma le_bytes_1: "le_bytes 1 v = [of_nat (v mod 256)]"
  using le_bytes.simps(2) [of 0 v] by simp

lemma length_le_bytes: "length (le_bytes k v) = k"
  by (induction k arbitrary: v) simp_all

lemma le_val_le_bytes: "v < 256 ^ k \<Longrightarrow> le_val (le_bytes k v) = v"
proof (induction k arbitrary: v)
  case 0
  then show ?case by simp
next
  case (Suc k)
  have "v div 256 < 256 ^ k"
    using Suc.prems by (simp add: less_mult_imp_div_less mult.commute)
  then have "le_val (le_bytes k (v div 256)) = v div 256"
    by (rule Suc.IH)
  moreover have "unat (of_nat (v mod 256) :: 8 word) = v mod 256"
    by (simp add: unat_of_nat)
  ultimately show ?case by simp
qed

section \<open>Evaluating the definitions on concrete inputs\<close>

lemmas example_defs =
  no_hashes_def unresolved_input_def tx_unresolved_def prev_hash_def plain_script_def
  spent_output_def resolved_input_def paying_output_def tx_mixed_def tx_unset_def
  tx_no_inputs_def tx_no_inputs_bytes_def segwit_bytes_def stripped_bytes_def
  tx_no_inputs_parsed_def tx_mixed_bytes_def tx_mixed_parsed_def segwit_parsed_def
  tx_mixed_segwit_def toy_ext_def tx_mixed_preimage_def fresh_heap_def
  three_calls_def added_twice_def channel_output_def stream_output_def signed_output_def
  cleared_output_def signed_bytes_def some_blocks_def no_live_def tail_ext_def huge_blocks_def
  create_coinbase_def Input_init_def Output_init_def TXORef_init_def TXORef_is_null_def
  TXRef_is_null_def TXRef_hash_def NULL_HASH32_def Transaction_new_def priv_add_inputs_def
  priv_add_outputs_def self_ref_def priv_reset_def reset_def inputs_def outputs_def

lemma read_many_numeral:
  "read_many r (numeral n) st =
     bind_result (r st) (\<lambda>(x, st).
       bind_result (read_many r (pred_numeral n) st) (\<lambda>(xs, st). Inr (x # xs, st)))"
proof -
  have "numeral n = Suc (pred_numeral n)"
    by (rule numeral_eq_Suc)
  then show ?thesis
    by (simp only: read_many.simps)
qed

lemmas codec_defs =
  priv_serialize_def deserialize_def deserialize_stream_def Transaction_init_def
  Input_serialize_to_def Input_deserialize_from_def Output_serialize_to_def
  Output_deserialize_from_def read_witness_stack_def
  write_compact_size_def write_string_def write_uint8_def write_uint16_def write_uint32_def
  write_uint64_def write_uint_def stream_write_def
  read_compact_size_def read_string_def read_uint8_def read_uint16_def read_uint32_def
  read_uint64_def read_uint_def stream_read_def BCDataStream_init_def bind_result_def
  le_bytes_numeral read_many_numeral InputScript_def OutputScript_def is_coinbase_def
  wire_input_def wire_output_def wire_transaction_def Input_script_bytes_def

section \<open>Reading back what was written\<close>

lemma bind_result_Inr:
  "bind_result m f = Inr y \<longleftrightarrow> (\<exists>x. m = Inr x \<and> f x = Inr y)"
  by (cases m) (simp_all add: bind_result_def)

lemma write_uint_Inr:
  "write_uint k s v = Inr s' \<longleftrightarrow> (0 \<le> v \<and> v < 256 ^ k \<and> s' = s @ le_bytes k (nat v))"
  by (auto simp: write_uint_def stream_write_def)

lemma read_uint_le_bytes:
  assumes "0 \<le> v" "v < 256 ^ k"
  shows "read_uint k \<lparr>tell = p, unread = le_bytes k (nat v) @ rest\<rparr>
           = Inr (v, \<lparr>tell = p + k, unread = rest\<rparr>)"
proof -
  have "nat v < 256 ^ k"
    using assms by (simp add: nat_less_iff)
  then have "le_val (le_bytes k (nat v)) = nat v"
    by (rule le_val_le_bytes)
  then show ?thesis
    using assms by (simp add: read_uint_def stream_read_def bind_result_def length_le_bytes)
qed

lemma reads_asI:
  "(\<And>p rest. \<exists>x. r \<lparr>tell = p, unread = e @ rest\<rparr>
       = Inr (x, \<lparr>tell = p + length e, unread = rest\<rparr>) \<and> P x) \<Longrightarrow> reads_as r e P"
  by (simp add: reads_as_def)

lemma reads_asD:
  "reads_as r e P \<Longrightarrow> \<exists>x. r \<lparr>tell = p, unread = e @ rest\<rparr>
       = Inr (x, \<lparr>tell = p + length e, unread = rest\<rparr>) \<and> P x"
  by (simp add: reads_as_def)

lemma reads_as_uint:
  "write_uint k s v = Inr s' \<Longrightarrow>
     \<exists>e. s' = s @ e \<and> length e = k \<and> reads_as (read_uint k) e (\<lambda>y. y = v)"
  by (auto simp: write_uint_Inr reads_as_def read_uint_le_bytes length_le_bytes)

lemma reads_as_compact_size:
  assumes "write_compact_size s n = Inr s'"
  shows "\<exists>e. s' = s @ e \<and> reads_as read_compact_size e (\<lambda>y. y = n)"
proof -
  have marker: "read_uint8 \<lparr>tell = p, unread = (le_bytes 1 (nat c) @ e) @ rest\<rparr>
      = Inr (c, \<lparr>tell = p + 1, unread = e @ rest\<rparr>)" if "0 \<le> c" "c < 256" for c p e rest
    using that read_uint_le_bytes [of c 1 p "e @ rest"] by (simp add: read_uint8_def)
  have tail: "read_uint k \<lparr>tell = p + 1, unread = le_bytes k (nat n) @ rest\<rparr>
      = Inr (n, \<lparr>tell = p + length (le_bytes 1 (nat c) @ le_bytes k (nat n)), unread = rest\<rparr>)"
    if "0 \<le> n" "n < 256 ^ k" for c p k rest
    using that read_uint_le_bytes [of n k "p + 1" rest] by (simp add: length_le_bytes)
  consider (a) "n < 0xFD" | (b) "0xFD \<le> n" "n \<le> 0xFFFF" | (c) "0xFFFF < n" "n \<le> 0xFFFFFFFF"
    | (d) "0xFFFFFFFF < n"
    by linarith
  then show ?thesis
  proof cases
    case a
    with assms have w: "0 \<le> n" "s' = s @ le_bytes 1 (nat n)"
      by (simp_all add: write_compact_size_def write_uint8_def write_uint_Inr)
    have "reads_as read_compact_size (le_bytes 1 (nat n)) (\<lambda>y. y = n)"
    proof (rule reads_asI)
      fix p rest
      have "read_uint8 \<lparr>tell = p, unread = le_bytes 1 (nat n) @ rest\<rparr>
          = Inr (n, \<lparr>tell = p + 1, unread = rest\<rparr>)"
        using marker [of n p "[]" rest] a w(1) by simp
      then show "\<exists>x. read_compact_size \<lparr>tell = p, unread = le_bytes 1 (nat n) @ rest\<rparr>
          = Inr (x, \<lparr>tell = p + length (le_bytes 1 (nat n)), unread = rest\<rparr>) \<and> x = n"
        using a by (simp add: read_compact_size_def bind_result_def length_le_bytes)
    qed
    with w show ?thesis by blast
  next
    case b
    with assms have w: "s' = s @ (le_bytes 1 (nat 0xFD) @ le_bytes 2 (nat n))"
      by (auto simp: write_compact_size_def write_uint8_def write_uint16_def write_uint_Inr
          bind_result_Inr)
    have "reads_as read_compact_size (le_bytes 1 (nat 0xFD) @ le_bytes 2 (nat n)) (\<lambda>y. y = n)"
    proof (rule reads_asI)
      fix p rest
      show "\<exists>x. read_compact_size \<lparr>tell = p, unread = (le_bytes 1 (nat 0xFD) @ le_bytes 2 (nat n)) @ rest\<rparr>
          = Inr (x, \<lparr>tell = p + length (le_bytes 1 (nat 0xFD) @ le_bytes 2 (nat n)), unread = rest\<rparr>) \<and> x = n"
        using marker [of "0xFD" p "le_bytes 2 (nat n)" rest] tail [of 2 p rest "0xFD"] b
        by (simp add: read_compact_size_def bind_result_def read_uint16_def)
    qed
    with w show ?thesis by blast
  next
    case c
    with assms have w: "s' = s @ (le_bytes 1 (nat 0xFE) @ le_bytes 4 (nat n))"
      by (auto simp: write_compact_size_def write_uint8_def write_uint32_def write_uint_Inr
          bind_result_Inr)
    have "reads_as read_compact_size (le_bytes 1 (nat 0xFE) @ le_bytes 4 (nat n)) (\<lambda>y. y = n)"
    proof (rule reads_asI)
      fix p rest
      show "\<exists>x. read_compact_size \<lparr>tell = p, unread = (le_bytes 1 (nat 0xFE) @ le_bytes 4 (nat n)) @ rest\<rparr>
          = Inr (x, \<lparr>tell = p + length (le_bytes 1 (nat 0xFE) @ le_bytes 4 (nat n)), unread = rest\<rparr>) \<and> x = n"
        using marker [of "0xFE" p "le_bytes 4 (nat n)" rest] tail [of 4 p rest "0xFE"] c
        by (simp add: read_compact_size_def bind_result_def read_uint32_def)
    qed
    with w show ?thesis by blast
  next
    case d
    with assms have w: "s' = s @ (le_bytes 1 (nat 0xFF) @ le_bytes 8 (nat n))" "n < 256 ^ 8"
      by (auto simp: write_compact_size_def write_uint8_def write_uint64_def write_uint_Inr
          bind_result_Inr)
    have "reads_as read_compact_size (le_bytes 1 (nat 0xFF) @ le_bytes 8 (nat n)) (\<lambda>y. y = n)"
    proof (rule reads_asI)
      fix p rest
      show "\<exists>x. read_compact_size \<lparr>tell = p, unread = (le_bytes 1 (nat 0xFF) @ le_bytes 8 (nat n)) @ rest\<rparr>
          = Inr (x, \<lparr>tell = p + length (le_bytes 1 (nat 0xFF) @ le_bytes 8 (nat n)), unread = rest\<rparr>) \<and> x = n"
        using marker [of "0xFF" p "le_bytes 8 (nat n)" rest] tail [of 8 p rest "0xFF"] d w(2)
        by (simp add: read_compact_size_def bind_result_def read_uint64_def)
    qed
    with w show ?thesis by blast
  qed
qed

text \<open>Reading one encoding after another.\<close>

lemma bind_reads_as:
  assumes "reads_as r e P"
  obtains x where "P x"
    and "bind_result (r \<lparr>tell = p, unread = (e @ e') @ rest\<rparr>) f
           = f (x, \<lparr>tell = p + length e, unread = e' @ rest\<rparr>)"
proof -
  from reads_asD [OF assms, of p "e' @ rest"]
  obtain x where "r \<lparr>tell = p, unread = e @ e' @ rest\<rparr>
      = Inr (x, \<lparr>tell = p + length e, unread = e' @ rest\<rparr>)" and "P x"
    by blast
  then show thesis
    using that [of x] by (simp add: bind_result_def)
qed

lemma reads_as_string:
  assumes "write_string s b = Inr s'"
  shows "\<exists>e. s' = s @ e \<and> reads_as read_string e (\<lambda>y. y = b)"
proof -
  from assms obtain s1 where s1: "write_compact_size s (int (length b)) = Inr s1"
    and s': "s' = s1 @ b"
    by (auto simp: write_string_def bind_result_Inr stream_write_def)
  from reads_as_compact_size [OF s1] obtain e where e: "s1 = s @ e"
    and r: "reads_as read_compact_size e (\<lambda>y. y = int (length b))"
    by blast
  have "reads_as read_string (e @ b) (\<lambda>y. y = b)"
  proof (rule reads_asI)
    fix p rest
    from bind_reads_as [OF r, of p b rest "\<lambda>(n, st). stream_read st (nat n)"]
    have "read_string \<lparr>tell = p, unread = (e @ b) @ rest\<rparr>
        = stream_read \<lparr>tell = p + length e, unread = b @ rest\<rparr> (nat (int (length b)))"
      by (auto simp: read_string_def)
    then show "\<exists>x. read_string \<lparr>tell = p, unread = (e @ b) @ rest\<rparr>
        = Inr (x, \<lparr>tell = p + length (e @ b), unread = rest\<rparr>) \<and> x = b"
      by (simp add: stream_read_def)
  qed
  with e s' show ?thesis by auto
qed

lemma reads_as_many:
  assumes item: "\<And>x s s'. x \<in> set xs \<Longrightarrow> w s x = Inr s' \<Longrightarrow>
      \<exists>e. s' = s @ e \<and> reads_as r e (\<lambda>y. g y = f x)"
  shows "write_each w s xs = Inr s' \<Longrightarrow>
      \<exists>e. s' = s @ e \<and> reads_as (read_many r (length xs)) e (\<lambda>ys. map g ys = map f xs)"
  using item
proof (induction xs arbitrary: s)
  case Nil
  then have "s' = s @ []" by simp
  moreover have "reads_as (read_many r (length [])) [] (\<lambda>ys. map g ys = map f [])"
    by (rule reads_asI) simp
  ultimately show ?case by blast
next
  case (Cons x xs)
  from Cons.prems(1) obtain s1 where s1: "w s x = Inr s1" and rest: "write_each w s1 xs = Inr s'"
    by (auto simp: bind_result_Inr)
  from Cons.prems(2) [OF _ s1] obtain e1 where e1: "s1 = s @ e1"
    and r1: "reads_as r e1 (\<lambda>y. g y = f x)"
    by auto
  have "\<exists>e. s' = s1 @ e \<and> reads_as (read_many r (length xs)) e (\<lambda>ys. map g ys = map f xs)"
    using rest Cons.prems(2) by (intro Cons.IH) auto
  then obtain e2 where e2: "s' = s1 @ e2"
    and r2: "reads_as (read_many r (length xs)) e2 (\<lambda>ys. map g ys = map f xs)"
    by blast
  have "reads_as (read_many r (length (x # xs))) (e1 @ e2) (\<lambda>ys. map g ys = map f (x # xs))"
  proof (rule reads_asI)
    fix p rest
    let ?k = "\<lambda>(y, st). bind_result (read_many r (length xs) st) (\<lambda>(ys, st). Inr (y # ys, st))"
    from bind_reads_as [OF r1, of p e2 rest ?k]
    obtain y where y: "g y = f x"
      and step: "read_many r (length (x # xs)) \<lparr>tell = p, unread = (e1 @ e2) @ rest\<rparr>
        = bind_result (read_many r (length xs) \<lparr>tell = p + length e1, unread = e2 @ rest\<rparr>)
            (\<lambda>(ys, st). Inr (y # ys, st))"
      by auto
    from reads_asD [OF r2, of "p + length e1" rest]
    obtain ys where "read_many r (length xs) \<lparr>tell = p + length e1, unread = e2 @ rest\<rparr>
        = Inr (ys, \<lparr>tell = p + length e1 + length e2, unread = rest\<rparr>)"
      and ys: "map g ys = map f xs"
      by blast
    with step y show "\<exists>z. read_many r (length (x # xs)) \<lparr>tell = p, unread = (e1 @ e2) @ rest\<rparr>
        = Inr (z, \<lparr>tell = p + length (e1 @ e2), unread = rest\<rparr>) \<and> map g z = map f (x # xs)"
      by (simp add: bind_result_def add.assoc)
  qed
  with e1 e2 show ?case by (auto simp del: read_many.simps)
qed

lemma reads_exact:
  "reads_as r e (\<lambda>y. y = v) \<Longrightarrow>
     r \<lparr>tell = p, unread = e @ rest\<rparr> = Inr (v, \<lparr>tell = p + length e, unread = rest\<rparr>)"
  by (auto simp: reads_as_def)

lemma reads_as_raw:
  "reads_as (\<lambda>st. stream_read st (length h)) h (\<lambda>y. y = h)"
  by (rule reads_asI) (simp add: stream_read_def)

lemma write_string_parts:
  assumes "write_string s b = Inr s'"
  shows "\<exists>e. s' = s @ e @ b \<and> reads_as read_compact_size e (\<lambda>y. y = int (length b))"
proof -
  from assms obtain s1 where s1: "write_compact_size s (int (length b)) = Inr s1"
    and s': "s' = s1 @ b"
    by (auto simp: write_string_def bind_result_Inr stream_write_def)
  from reads_as_compact_size [OF s1] s' show ?thesis by auto
qed

lemma Input_serialize_to_Inr:
  assumes "Input_serialize_to H i s None = Inr s'"
  shows "\<exists>b s1 s2. Input_script_bytes i = Some b \<and>
           write_uint32 (s @ TXRef_hash H (TXORef.tx_ref (txo_ref i))) (TXORef.position (txo_ref i)) = Inr s1 \<and>
           write_string s1 b = Inr s2 \<and> write_uint32 s2 (sequence i) = Inr s'"
  using assms
  by (auto simp: Input_serialize_to_def bind_result_Inr stream_write_def Input_script_bytes_def
      split: if_splits option.splits script_arg.splits)

lemma wire_input_deserialized:
  "wire_input H'
     (Input_init H' (TXORef_init (TXRefImmutable h (- 1)) pos)
        (Some (if \<not> TXRef_is_null H' (TXRefImmutable h (- 1))
               then ScriptObj (InputScript X b) else RawBytes b)) sq None None)
   = (h, pos, Some b, sq)"
  by (simp add: wire_input_def Input_init_def TXORef_init_def TXORef_is_null_def
      Input_script_bytes_def is_coinbase_def TXRef_hash_def InputScript_def)

lemma reads_as_input:
  assumes ser: "Input_serialize_to H i s None = Inr s'"
    and len: "length (TXRef_hash H (TXORef.tx_ref (txo_ref i))) = 32"
  shows "\<exists>e. s' = s @ e \<and>
           reads_as (Input_deserialize_from X H') e (\<lambda>y. wire_input H' y = wire_input H i)"
proof -
  let ?h = "TXRef_hash H (TXORef.tx_ref (txo_ref i))"
  from Input_serialize_to_Inr [OF ser] obtain b s1 s2
    where b: "Input_script_bytes i = Some b"
      and s1: "write_uint32 (s @ ?h) (TXORef.position (txo_ref i)) = Inr s1"
      and s2: "write_string s1 b = Inr s2"
      and s3: "write_uint32 s2 (sequence i) = Inr s'"
    by blast
  from reads_as_uint [OF s1 [unfolded write_uint32_def]] obtain e1
    where e1: "s1 = (s @ ?h) @ e1"
      and r1: "reads_as read_uint32 e1 (\<lambda>y. y = TXORef.position (txo_ref i))"
    by (auto simp: read_uint32_def)
  from reads_as_string [OF s2] obtain e2
    where e2: "s2 = s1 @ e2" and r2: "reads_as read_string e2 (\<lambda>y. y = b)"
    by blast
  from reads_as_uint [OF s3 [unfolded write_uint32_def]] obtain e3
    where e3: "s' = s2 @ e3" and r3: "reads_as read_uint32 e3 (\<lambda>y. y = sequence i)"
    by (auto simp: read_uint32_def)
  have r0: "reads_as (\<lambda>st. stream_read st 32) ?h (\<lambda>y. y = ?h)"
    using reads_as_raw [of ?h] len by simp
  have "reads_as (Input_deserialize_from X H') (?h @ e1 @ e2 @ e3)
          (\<lambda>y. wire_input H' y = wire_input H i)"
  proof (rule reads_asI)
    fix p rest
    let ?p1 = "p + length ?h" 
    let ?p2 = "?p1 + length e1" 
    let ?p3 = "?p2 + length e2"
    let ?p4 = "?p3 + length e3"
    have 0: "stream_read \<lparr>tell = p, unread = ?h @ e1 @ e2 @ e3 @ rest\<rparr> 32
        = Inr (?h, \<lparr>tell = ?p1, unread = e1 @ e2 @ e3 @ rest\<rparr>)"
      using reads_exact [OF r0, of p "e1 @ e2 @ e3 @ rest"] .
    have 1: "read_uint32 \<lparr>tell = ?p1, unread = e1 @ e2 @ e3 @ rest\<rparr>
        = Inr (TXORef.position (txo_ref i), \<lparr>tell = ?p2, unread = e2 @ e3 @ rest\<rparr>)"
      using reads_exact [OF r1, of ?p1 "e2 @ e3 @ rest"] .
    have 2: "read_string \<lparr>tell = ?p2, unread = e2 @ e3 @ rest\<rparr>
        = Inr (b, \<lparr>tell = ?p3, unread = e3 @ rest\<rparr>)"
      using reads_exact [OF r2, of ?p2 "e3 @ rest"] .
    have 3: "read_uint32 \<lparr>tell = ?p3, unread = e3 @ rest\<rparr>
        = Inr (sequence i, \<lparr>tell = ?p4, unread = rest\<rparr>)"
      using reads_exact [OF r3, of ?p3 rest] .
    let ?x = "Input_init H' (TXORef_init (TXRefImmutable ?h (- 1)) (TXORef.position (txo_ref i)))
                 (Some (if \<not> TXRef_is_null H' (TXRefImmutable ?h (- 1))
                        then ScriptObj (InputScript X b) else RawBytes b))
                 (sequence i) None None"
    have "Input_deserialize_from X H' \<lparr>tell = p, unread = ?h @ e1 @ e2 @ e3 @ rest\<rparr>
        = Inr (?x, \<lparr>tell = ?p4, unread = rest\<rparr>)"
      by (simp only: Input_deserialize_from_def bind_result_def 0 1 2 3 sum.case prod.case)
    moreover have "wire_input H' ?x = wire_input H i"
      using b by (simp only: wire_input_deserialized) (simp add: wire_input_def)
    ultimately show "\<exists>x. Input_deserialize_from X H' \<lparr>tell = p, unread = (?h @ e1 @ e2 @ e3) @ rest\<rparr>
        = Inr (x, \<lparr>tell = p + length (?h @ e1 @ e2 @ e3), unread = rest\<rparr>)
        \<and> wire_input H' x = wire_input H i"
      by (intro exI [of _ ?x]) (simp add: add.assoc)
  qed
  with e1 e2 e3 show ?thesis by auto
qed


lemma wire_output_deserialized:
  "wire_output (Output_init a (OutputScript X src off)) = (a, src)"
  by (simp add: wire_output_def Output_init_def OutputScript_def)

lemma reads_as_output:
  assumes ser: "Output_serialize_to t s = Inr s'"
  shows "\<exists>e. s' = s @ e \<and>
           reads_as (\<lambda>st. Output_deserialize_from X st start) e
             (\<lambda>y :: 'd Output. wire_output y = wire_output t)"
proof -
  let ?src = "source (Output.script t)"
  from ser obtain s1 where s1: "write_uint64 s (amount t) = Inr s1"
    and s2: "write_string s1 ?src = Inr s'"
    by (auto simp: Output_serialize_to_def bind_result_Inr)
  from reads_as_uint [OF s1 [unfolded write_uint64_def]] obtain e1
    where e1: "s1 = s @ e1" and r1: "reads_as read_uint64 e1 (\<lambda>y. y = amount t)"
    by (auto simp: read_uint64_def)
  from write_string_parts [OF s2] obtain e2
    where e2: "s' = s1 @ e2 @ ?src"
      and r2: "reads_as read_compact_size e2 (\<lambda>y. y = int (length ?src))"
    by blast
  have "reads_as (\<lambda>st. Output_deserialize_from X st start) (e1 @ e2 @ ?src)
          (\<lambda>y :: 'd Output. wire_output y = wire_output t)"
  proof (rule reads_asI)
    fix p rest
    let ?p1 = "p + length e1"
    let ?p2 = "?p1 + length e2"
    let ?x = "Output_init (amount t) (OutputScript X ?src (int ?p2 - start)) :: 'd Output"
    have 0: "read_uint64 \<lparr>tell = p, unread = e1 @ e2 @ ?src @ rest\<rparr>
        = Inr (amount t, \<lparr>tell = ?p1, unread = e2 @ ?src @ rest\<rparr>)"
      using reads_exact [OF r1, of p "e2 @ ?src @ rest"] .
    have 1: "read_compact_size \<lparr>tell = ?p1, unread = e2 @ ?src @ rest\<rparr>
        = Inr (int (length ?src), \<lparr>tell = ?p2, unread = ?src @ rest\<rparr>)"
      using reads_exact [OF r2, of ?p1 "?src @ rest"] .
    have 2: "stream_read \<lparr>tell = ?p2, unread = ?src @ rest\<rparr> (nat (int (length ?src)))
        = Inr (?src, \<lparr>tell = ?p2 + length ?src, unread = rest\<rparr>)"
      by (simp add: stream_read_def)
    have "Output_deserialize_from X \<lparr>tell = p, unread = e1 @ e2 @ ?src @ rest\<rparr> start
        = Inr (?x, \<lparr>tell = ?p2 + length ?src, unread = rest\<rparr>)"
      by (simp only: Output_deserialize_from_def bind_result_def 0 1 2 sum.case prod.case
          BCDataStream.simps)
    moreover have "wire_output ?x = wire_output t"
      by (simp only: wire_output_deserialized) (simp add: wire_output_def)
    ultimately show "\<exists>x. Output_deserialize_from X \<lparr>tell = p, unread = (e1 @ e2 @ ?src) @ rest\<rparr> start
        = Inr (x :: 'd Output, \<lparr>tell = p + length (e1 @ e2 @ ?src), unread = rest\<rparr>)
        \<and> wire_output x = wire_output t"
      by (intro exI [of _ ?x]) (simp add: add.assoc)
  qed
  with e1 e2 show ?thesis by auto
qed

lemma map_priv_add_loop:
  assumes "\<And>x r p. f (x\<lparr>InputOutput.tx_ref := r, InputOutput.position := p\<rparr>) = f x"
  shows "map f (priv_add_loop r existing new) = map f existing @ map f new"
  by (induction new arbitrary: existing) (simp_all add: assms)

lemma wire_input_attach:
  "wire_input H (x\<lparr>InputOutput.tx_ref := r, InputOutput.position := p\<rparr>) = wire_input H x"
  by (simp add: wire_input_def Input_script_bytes_def is_coinbase_def)

lemma wire_output_attach:
  "wire_output (x\<lparr>InputOutput.tx_ref := r, InputOutput.position := p\<rparr>) = wire_output x"
  by (simp add: wire_output_def)

lemma priv_serialize_Inr:
  assumes "priv_serialize H T True False = Inr bs"
  shows "\<exists>s1 s2 s3 s4 s5.
           write_uint32 [] (version T) = Inr s1 \<and>
           write_compact_size s1 (int (length (priv_inputs T))) = Inr s2 \<and>
           write_each (\<lambda>stream txin. Input_serialize_to H txin stream None) s2 (priv_inputs T) = Inr s3 \<and>
           write_compact_size s3 (int (length (priv_outputs T))) = Inr s4 \<and>
           write_each (\<lambda>stream txout. Output_serialize_to txout stream) s4 (priv_outputs T) = Inr s5 \<and>
           write_uint32 s5 (locktime T) = Inr bs"
  using assms by (simp add: priv_serialize_def bind_result_Inr) blast

lemma deserialize_stream_serialized:
  fixes T :: "('c Input, 'd Output) Transaction"
    and self :: "('e Input, 'f Output) Transaction"
  assumes ser: "priv_serialize H T True False = Inr bs"
    and nonempty: "priv_inputs T \<noteq> []"
    and hashes: "\<forall>i \<in> set (priv_inputs T). length (TXRef_hash H (TXORef.tx_ref (txo_ref i))) = 32"
    and fresh: "is_segwit_flag self = 0" "priv_inputs self = []" "priv_outputs self = []"
  shows "\<exists>T'. deserialize_stream X H' self \<lparr>tell = p, unread = bs\<rparr> = Inr T' \<and>
           version T' = version T \<and> locktime T' = locktime T \<and>
           map (wire_input H') (inputs T') = map (wire_input H) (inputs T) \<and>
           map wire_output (outputs T') = map wire_output (outputs T) \<and>
           is_segwit_flag T' = 0 \<and> priv_raw T' = priv_raw self"
proof -
  let ?ins = "priv_inputs T" and ?outs = "priv_outputs T"
  let ?win = "\<lambda>stream txin. Input_serialize_to H txin stream None"
  let ?wout = "\<lambda>stream txout. Output_serialize_to txout stream"
  let ?rin = "Input_deserialize_from X H' :: BCDataStream \<Rightarrow> error + ('e Input \<times> BCDataStream)"
  let ?rout = "\<lambda>stream. Output_deserialize_from X stream (int p)
      :: error + ('f Output \<times> BCDataStream)"
  from priv_serialize_Inr [OF ser] obtain s1 s2 s3 s4 s5
    where s1: "write_uint32 [] (version T) = Inr s1"
      and s2: "write_compact_size s1 (int (length ?ins)) = Inr s2"
      and s3: "write_each ?win s2 ?ins = Inr s3"
      and s4: "write_compact_size s3 (int (length ?outs)) = Inr s4"
      and s5: "write_each ?wout s4 ?outs = Inr s5"
      and s6: "write_uint32 s5 (locktime T) = Inr bs"
    by blast
  from reads_as_uint [OF s1 [unfolded write_uint32_def]] obtain e1
    where e1: "s1 = e1" and r1: "reads_as read_uint32 e1 (\<lambda>y. y = version T)"
    by (auto simp: read_uint32_def)
  from reads_as_compact_size [OF s2] obtain e2
    where e2: "s2 = s1 @ e2"
      and r2: "reads_as read_compact_size e2 (\<lambda>y. y = int (length ?ins))"
    by blast
  have "\<exists>e. s3 = s2 @ e \<and>
      reads_as (read_many ?rin (length ?ins)) e (\<lambda>ys. map (wire_input H') ys = map (wire_input H) ?ins)"
    using s3
  proof (rule reads_as_many [rotated])
    fix x s s'
    assume "x \<in> set ?ins" and "Input_serialize_to H x s None = Inr s'"
    with hashes show "\<exists>e. s' = s @ e \<and> reads_as ?rin e (\<lambda>y. wire_input H' y = wire_input H x)"
      by (intro reads_as_input) auto
  qed
  then obtain e3 where e3: "s3 = s2 @ e3"
    and r3: "reads_as (read_many ?rin (length ?ins)) e3
      (\<lambda>ys. map (wire_input H') ys = map (wire_input H) ?ins)"
    by blast
  from reads_as_compact_size [OF s4] obtain e4
    where e4: "s4 = s3 @ e4"
      and r4: "reads_as read_compact_size e4 (\<lambda>y. y = int (length ?outs))"
    by blast
  have "\<exists>e. s5 = s4 @ e \<and>
      reads_as (read_many ?rout (length ?outs)) e (\<lambda>ys. map wire_output ys = map wire_output ?outs)"
    using s5
  proof (rule reads_as_many [rotated])
    fix x s s'
    assume "x \<in> set ?outs" and "Output_serialize_to x s = Inr s'"
    then show "\<exists>e. s' = s @ e \<and> reads_as ?rout e (\<lambda>y. wire_output y = wire_output x)"
      by (intro reads_as_output)
  qed
  then obtain e5 where e5: "s5 = s4 @ e5"
    and r5: "reads_as (read_many ?rout (length ?outs)) e5
      (\<lambda>ys. map wire_output ys = map wire_output ?outs)"
    by blast
  from reads_as_uint [OF s6 [unfolded write_uint32_def]] obtain e6
    where e6: "bs = s5 @ e6" and r6: "reads_as read_uint32 e6 (\<lambda>y. y = locktime T)"
    by (auto simp: read_uint32_def)
  have bs: "bs = e1 @ e2 @ e3 @ e4 @ e5 @ e6"
    using e1 e2 e3 e4 e5 e6 by simp
  let ?p1 = "p + length e1"
  let ?p2 = "?p1 + length e2"
  let ?p3 = "?p2 + length e3"
  let ?p4 = "?p3 + length e4"
  let ?p5 = "?p4 + length e5"
  let ?p6 = "?p5 + length e6"
  have 1: "read_uint32 \<lparr>tell = p, unread = e1 @ e2 @ e3 @ e4 @ e5 @ e6\<rparr>
      = Inr (version T, \<lparr>tell = ?p1, unread = e2 @ e3 @ e4 @ e5 @ e6\<rparr>)"
    using reads_exact [OF r1, of p "e2 @ e3 @ e4 @ e5 @ e6"] .
  have 2: "read_compact_size \<lparr>tell = ?p1, unread = e2 @ e3 @ e4 @ e5 @ e6\<rparr>
      = Inr (int (length ?ins), \<lparr>tell = ?p2, unread = e3 @ e4 @ e5 @ e6\<rparr>)"
    using reads_exact [OF r2, of ?p1 "e3 @ e4 @ e5 @ e6"] .
  from reads_asD [OF r3, of ?p2 "e4 @ e5 @ e6"] obtain ins'
    where 3: "read_many ?rin (nat (int (length ?ins))) \<lparr>tell = ?p2, unread = e3 @ e4 @ e5 @ e6\<rparr>
      = Inr (ins', \<lparr>tell = ?p3, unread = e4 @ e5 @ e6\<rparr>)"
      and ins': "map (wire_input H') ins' = map (wire_input H) ?ins"
    by auto
  have 4: "read_compact_size \<lparr>tell = ?p3, unread = e4 @ e5 @ e6\<rparr>
      = Inr (int (length ?outs), \<lparr>tell = ?p4, unread = e5 @ e6\<rparr>)"
    using reads_exact [OF r4, of ?p3 "e5 @ e6"] .
  from reads_asD [OF r5, of ?p4 "e6"] obtain outs'
    where 5: "read_many ?rout (nat (int (length ?outs))) \<lparr>tell = ?p4, unread = e5 @ e6\<rparr>
      = Inr (outs', \<lparr>tell = ?p5, unread = e6\<rparr>)"
      and outs': "map wire_output outs' = map wire_output ?outs"
    by auto
  have 6: "read_uint32 \<lparr>tell = ?p5, unread = e6\<rparr>
      = Inr (locktime T, \<lparr>tell = ?p6, unread = []\<rparr>)"
    using reads_exact [OF r6, of ?p5 "[]"] by simp
  have count: "int (length ?ins) \<noteq> 0"
    using nonempty by simp
  let ?T' = "(priv_add_outputs
                (priv_add_inputs (self\<lparr>version := version T, is_segwit_flag := is_segwit_flag self\<rparr>) ins' False)
                outs' False)
             \<lparr>witnesses := witnesses self, locktime := locktime T\<rparr>"
  have "deserialize_stream X H' self \<lparr>tell = p, unread = e1 @ e2 @ e3 @ e4 @ e5 @ e6\<rparr> = Inr ?T'"
    using count fresh(1)
    by (simp only: deserialize_stream_def Let_def bind_result_def BCDataStream.simps
        1 2 3 4 5 6 sum.case prod.case if_False refl if_True simp_thms)
  moreover have "version ?T' = version T" "locktime ?T' = locktime T" "is_segwit_flag ?T' = 0"
    "priv_raw ?T' = priv_raw self"
    using fresh(1) by (simp_all add: priv_add_outputs_def priv_add_inputs_def)
  moreover have "map (wire_input H') (inputs ?T') = map (wire_input H) (inputs T)"
    using ins' fresh(2)
    by (simp add: priv_add_outputs_def priv_add_inputs_def inputs_def
        map_priv_add_loop [of "wire_input H'"] wire_input_attach)
  moreover have "map wire_output (outputs ?T') = map wire_output (outputs T)"
    using outs' fresh(3)
    by (simp add: priv_add_outputs_def priv_add_inputs_def outputs_def
        map_priv_add_loop [of wire_output] wire_output_attach)
  ultimately show ?thesis
    unfolding bs by blast
qed

section \<open>Amounts, sums and balances\<close>

lemma input_sum_value:
  fixes self :: "('c Input, 'o) Transaction"
  shows "input_sum self = Inr (sum_list (resolved_amounts (inputs self)))"
proof -
  have "sum_results (map Inr xs) = Inr (sum_list xs)" for xs
    by (induction xs) (simp_all add: bind_result_def)
  moreover have "map Input_amount (filter (\<lambda>i. txo (txo_ref i) \<noteq> None) xs)
      = map Inr (resolved_amounts xs)" for xs :: "'c Input list"
    by (induction xs) (auto simp: resolved_amounts_def Input_amount_def split: option.splits)
  ultimately show ?thesis by (simp add: input_sum_def)
qed

lemma output_sum_value:
  fixes self :: "('i, 'c Output) Transaction"
  shows "output_sum self = Inr (sum_list (map amount (outputs self)))"
proof -
  have "sum_results (map (\<lambda>t. Inr (amount t)) xs) = Inr (sum_list (map amount xs))"
    for xs :: "'c Output list"
    by (induction xs) (simp_all add: bind_result_def)
  then show ?thesis by (simp add: output_sum_def)
qed

text \<open>
  Claim C7, as the code has it. The amount of an input whose previous output is not
  attached raises \<open>ValueError\<close>. The sum of the inputs does not: its generator filters
  on \<open>txo_ref.txo is not None\<close>, so \<open>input_sum\<close> always returns the sum over the
  resolved inputs alone, and \<open>fee\<close> always returns that sum minus the sum of the outputs.
\<close>

theorem input_sum_skips_unresolved:
  "(txo (txo_ref i) = None \<longrightarrow> Input_amount i = Inl ValueError) \<and>
   input_sum self = Inr (sum_list (resolved_amounts (inputs self))) \<and>
   fee self =
     Inr (sum_list (resolved_amounts (inputs self)) - sum_list (map amount (outputs self)))"
  by (simp add: Input_amount_def input_sum_value output_sum_value fee_def bind_result_def)

theorem input_sum_skips_unresolved_witness:
  "txo (txo_ref unresolved_input) = None \<and>
   Input_amount unresolved_input = Inl ValueError \<and>
   input_sum (tx_mixed (Some True)) = Inr 7 \<and>
   fee (tx_mixed (Some True)) = Inr 2"
  using input_sum_skips_unresolved [where i = unresolved_input and self = "tx_mixed (Some True)"]
  by (simp add: example_defs resolved_amounts_def)

text \<open>
  Claim C7 as stated fails: a transaction whose only input is unresolved has an
  \<open>input_sum\<close> and a \<open>fee\<close>, both 0, where the claim expects an error.
\<close>

theorem input_sum_unresolved_counterexample:
  "map (\<lambda>i. txo (txo_ref i)) (inputs tx_unresolved) = [None] \<and>
   input_sum tx_unresolved = Inr 0 \<and> fee tx_unresolved = Inr 0"
  by (simp add: example_defs input_sum_def output_sum_def fee_def bind_result_def)

lemma balance_inputs_skip:
  "txo (txo_ref i) = None \<Longrightarrow>
     balance_inputs b (xs @ i # ys) = balance_inputs b (xs @ ys)"
  by (induction xs arbitrary: b) (simp_all add: bind_result_def split: sum.splits)

lemma balance_inputs_unset:
  "j \<in> set xs \<Longrightarrow> txo (txo_ref j) \<noteq> None \<Longrightarrow> Input_is_my_input j = None \<Longrightarrow>
     balance_inputs b xs = Inl ValueError"
proof (induction xs arbitrary: b)
  case Nil
  then show ?case by simp
next
  case (Cons x xs)
  show ?case
  proof (cases "x = j")
    case True
    with Cons.prems show ?thesis by auto
  next
    case False
    with Cons.prems have "j \<in> set xs" by simp
    then have "balance_inputs b' xs = Inl ValueError" for b'
      using Cons.prems(2,3) by (rule Cons.IH)
    then show ?thesis by (simp add: bind_result_def Input_amount_def split: option.splits)
  qed
qed

text \<open>
  Claim C10. \<open>is_my_input\<close> of an input whose previous output is not attached is
  \<open>False\<close>. \<open>net_account_balance\<close> gives the same result, value or error, with and
  without such an input in the list. An input whose previous output is attached and
  whose \<open>is_my_input\<close> is \<open>None\<close> (the spent output has no \<open>is_my_output\<close>) makes
  \<open>net_account_balance\<close> raise \<open>ValueError\<close>.
\<close>

theorem net_account_balance_unresolved:
  "(txo (txo_ref i) = None \<longrightarrow> Input_is_my_input i = Some False) \<and>
   (txo (txo_ref i) = None \<longrightarrow>
      net_account_balance (self\<lparr>priv_inputs := xs @ i # ys\<rparr>)
        = net_account_balance (self\<lparr>priv_inputs := xs @ ys\<rparr>)) \<and>
   (j \<in> set (inputs self) \<and> txo (txo_ref j) \<noteq> None \<and> Input_is_my_input j = None \<longrightarrow>
      net_account_balance self = Inl ValueError)"
  by (auto simp: Input_is_my_input_def net_account_balance_def inputs_def outputs_def
        balance_inputs_skip balance_inputs_unset bind_result_def)

theorem net_account_balance_unresolved_witness:
  "txo (txo_ref unresolved_input) = None \<and>
   Input_is_my_input unresolved_input = Some False \<and>
   net_account_balance (tx_unset\<lparr>priv_inputs := [] @ unresolved_input # [resolved_input (Some True)]\<rparr>)
     = net_account_balance (tx_unset\<lparr>priv_inputs := [] @ [resolved_input (Some True)]\<rparr>) \<and>
   net_account_balance (tx_unset\<lparr>priv_inputs := [] @ [resolved_input (Some True)]\<rparr>) = Inr (- 7) \<and>
   resolved_input None \<in> set (inputs tx_unset) \<and>
   txo (txo_ref (resolved_input None)) \<noteq> None \<and>
   Input_is_my_input (resolved_input None) = None \<and>
   net_account_balance tx_unset = Inl ValueError"
  using
    net_account_balance_unresolved [where i = unresolved_input and self = tx_unset
      and xs = "[]" and ys = "[resolved_input (Some True)]" and j = "resolved_input None"]
  by (simp add: example_defs Input_is_my_input_def net_account_balance_def bind_result_def
        Input_amount_def)

section \<open>Claim hashes\<close>

text \<open>
  \<open>struct.pack('>I', n)\<close> gives the four bytes of \<open>n\<close> with the most significant
  first.
\<close>

lemma be_bytes_4:
  "be_bytes 4 n
     = [of_nat (n div 16777216 mod 256), of_nat (n div 65536 mod 256),
        of_nat (n div 256 mod 256), of_nat (n mod 256)]"
proof -
  have "n div 256 div 256 = n div 65536" "n div 256 div 256 div 256 = n div 16777216"
    by (simp_all add: div_mult2_eq [symmetric])
  then show ?thesis
    by (simp add: be_bytes_def le_bytes_numeral le_bytes_1)
qed

text \<open>
  Claim C5. For an output attached to a transaction (it has a \<open>tx_ref\<close> and a position
  \<open>p\<close> that fits 32 bits): when the script is a claim-name script, \<open>claim_hash\<close> is
  \<open>hash160\<close> of the hash of that reference followed by the four bytes of \<open>p\<close>, most
  significant byte first; when it is an update-claim or support-claim script, it is the
  value stored under \<open>claim_id\<close> in the value map; for every other script it raises
  \<open>ValueError\<close>.
\<close>

theorem claim_hash_rules:
  "(is_claim_name (Output.script self) \<and> InputOutput.tx_ref self = Some r \<and>
      InputOutput.position self = Some p \<and> 0 \<le> p \<and> p < 2 ^ 32 \<longrightarrow>
      claim_hash X H self
        = Inr (Bytes (hash160 X
            (TXRef_hash H r @
             [of_nat (nat p div 16777216 mod 256), of_nat (nat p div 65536 mod 256),
              of_nat (nat p div 256 mod 256), of_nat (nat p mod 256)])))) \<and>
   ((is_update_claim (Output.script self) \<or> is_support_claim (Output.script self)) \<and>
      script_values (Output.script self) ''claim_id'' = Some v \<longrightarrow>
      claim_hash X H self = Inr v) \<and>
   (\<not> is_claim_involved (Output.script self) \<longrightarrow> claim_hash X H self = Inl ValueError)"
  by (auto simp: claim_hash_def pack_be_uint32_def bind_result_def is_claim_involved_def
        is_claim_name_def is_update_claim_def is_support_claim_def be_bytes_4)

theorem claim_hash_rules_witness:
  "claim_hash tail_ext no_hashes (attached_output ClaimName)
     = Inr (Bytes (replicate 16 0x11 @ [0, 0, 1, 2])) \<and>
   claim_hash tail_ext no_hashes (attached_output UpdateClaim)
     = Inr (Bytes (replicate 20 0x22)) \<and>
   claim_hash tail_ext no_hashes (attached_output SupportClaim)
     = Inr (Bytes (replicate 20 0x22)) \<and>
   claim_hash tail_ext no_hashes (attached_output PayPubKeyHash) = Inl ValueError"
proof -
  have s: "is_claim_name (Output.script (attached_output ClaimName))"
    "is_update_claim (Output.script (attached_output UpdateClaim))"
    "is_support_claim (Output.script (attached_output SupportClaim))"
    "\<not> is_claim_involved (Output.script (attached_output PayPubKeyHash))"
    by (simp_all add: attached_output_def is_claim_involved_def is_claim_name_def
        is_update_claim_def is_support_claim_def)
  have f: "InputOutput.tx_ref (attached_output t) = Some (TXRefImmutable prev_hash 5)"
    "InputOutput.position (attached_output t) = Some 258"
    "script_values (Output.script (attached_output t)) ''claim_id''
       = Some (Bytes (replicate 20 0x22))" for t
    by (simp_all add: attached_output_def)
  have "hash160 tail_ext
      (TXRef_hash no_hashes (TXRefImmutable prev_hash 5) @
       [of_nat (nat 258 div 16777216 mod 256), of_nat (nat 258 div 65536 mod 256),
        of_nat (nat 258 div 256 mod 256), of_nat (nat 258 mod 256)])
    = replicate 16 0x11 @ [0, 0, 1, 2]"
    by (simp add: tail_ext_def toy_ext_def prev_hash_def TXRef_hash_def)
  with
    claim_hash_rules [where self = "attached_output ClaimName" and X = tail_ext
      and H = no_hashes and r = "TXRefImmutable prev_hash 5" and p = 258]
    claim_hash_rules [where self = "attached_output UpdateClaim" and X = tail_ext
      and H = no_hashes and v = "Bytes (replicate 20 0x22)"]
    claim_hash_rules [where self = "attached_output SupportClaim" and X = tail_ext
      and H = no_hashes and v = "Bytes (replicate 20 0x22)"]
    claim_hash_rules [where self = "attached_output PayPubKeyHash" and X = tail_ext
      and H = no_hashes]
    s f
  show ?thesis by simp
qed

section \<open>Serializing and deserializing a transaction\<close>

text \<open>
  Claim C1, as the code has it. When a transaction has at least one input, every
  previous-transaction hash of its inputs is 32 bytes long and \<open>_serialize\<close> succeeds
  (every field fits its width on the wire), the constructor applied to the serialized
  bytes succeeds and yields a transaction with the same version, the same locktime, the
  same serialized fields of the inputs and the same serialized fields of the outputs.
\<close>

theorem serialize_deserialize_roundtrip:
  fixes T :: "('c Input, 'd Output) Transaction"
  assumes "priv_serialize H T True False = Inr bs"
    and "priv_inputs T \<noteq> []"
    and "list_all (\<lambda>i. length (TXRef_hash H (TXORef.tx_ref (txo_ref i))) = 32) (priv_inputs T)"
  shows "map_sum id (wire_transaction H')
           (Transaction_init X H' me (Some bs) v lt ver h pos jd
              :: error + ('e Input, 'f Output) Transaction)
         = Inr (wire_transaction H T)"
proof -
  let ?self = "Transaction_new me (Some bs) v lt ver h pos jd :: ('e Input, 'f Output) Transaction"
  have "\<forall>i \<in> set (priv_inputs T). length (TXRef_hash H (TXORef.tx_ref (txo_ref i))) = 32"
    using assms(3) by (simp add: list_all_iff)
  with assms(1,2) have "\<exists>T'. deserialize_stream X H' ?self \<lparr>tell = 0, unread = bs\<rparr> = Inr T' \<and>
      version T' = version T \<and> locktime T' = locktime T \<and>
      map (wire_input H') (inputs T') = map (wire_input H) (inputs T) \<and>
      map wire_output (outputs T') = map wire_output (outputs T) \<and>
      is_segwit_flag T' = 0 \<and> priv_raw T' = priv_raw ?self"
    by (intro deserialize_stream_serialized) (simp_all add: Transaction_new_def)
  then obtain T' where "deserialize_stream X H' ?self \<lparr>tell = 0, unread = bs\<rparr> = Inr T'"
    and "wire_transaction H' T' = wire_transaction H T"
    by (auto simp: wire_transaction_def)
  then show ?thesis
    by (simp add: Transaction_init_def deserialize_def BCDataStream_init_def Transaction_new_def)
qed

theorem serialize_deserialize_roundtrip_witness:
  "priv_serialize no_hashes (tx_mixed (Some True)) True False = Inr tx_mixed_bytes \<and>
   priv_inputs (tx_mixed (Some True)) \<noteq> [] \<and>
   list_all (\<lambda>i. length (TXRef_hash no_hashes (TXORef.tx_ref (txo_ref i))) = 32)
     (priv_inputs (tx_mixed (Some True))) \<and>
   map_sum id (wire_transaction no_hashes) tx_mixed_parsed
     = Inr (wire_transaction no_hashes (tx_mixed (Some True)))"
proof -
  have a: "priv_serialize no_hashes (tx_mixed (Some True)) True False = Inr tx_mixed_bytes"
    by (simp add: example_defs codec_defs)
  have b: "priv_inputs (tx_mixed (Some True)) \<noteq> []"
    by (simp add: example_defs)
  have c: "list_all (\<lambda>i. length (TXRef_hash no_hashes (TXORef.tx_ref (txo_ref i))) = 32)
     (priv_inputs (tx_mixed (Some True)))"
    by (simp add: example_defs)
  from serialize_deserialize_roundtrip [OF a b c, of no_hashes toy_ext 1 1 0 False "- 2" "- 1" None]
  have "map_sum id (wire_transaction no_hashes) tx_mixed_parsed
     = Inr (wire_transaction no_hashes (tx_mixed (Some True)))"
    by (simp only: tx_mixed_parsed_def)
  with a b c show ?thesis by blast
qed

text \<open>
  Claim C1 as stated fails for a transaction without inputs. Its serialization has the
  input count 0 right after the version, which \<open>deserialize\<close> takes for the segwit
  marker: the output count is read as the flag, the bytes of the first amount as the two
  counts and as the locktime. The transaction with one output of amount 0 comes back
  without outputs.
\<close>

theorem roundtrip_without_inputs_counterexample:
  "priv_serialize no_hashes tx_no_inputs True False = Inr tx_no_inputs_bytes \<and>
   wire_transaction no_hashes tx_no_inputs = (1, [], [(0, [0x51])], 0) \<and>
   map_sum id (wire_transaction no_hashes) tx_no_inputs_parsed = Inr (1, [], [], 0) \<and>
   map_sum id is_segwit_flag tx_no_inputs_parsed = Inr 1"
  by (simp add: example_defs codec_defs)

section \<open>The cached raw forms\<close>

lemma bind_result_InrE:
  assumes "bind_result m f = Inr y"
  obtains x where "m = Inr x" and "f x = Inr y"
  using assms by (auto simp: bind_result_Inr)

lemma deserialize_stream_priv_raw:
  assumes "deserialize_stream X H self st = Inr T"
  shows "priv_raw T = priv_raw self \<and> priv_raw_sans_segwit T = priv_raw_sans_segwit self"
  using assms unfolding deserialize_stream_def Let_def
  by (elim bind_result_InrE)
    (auto simp: priv_add_inputs_def priv_add_outputs_def elim!: bind_result_InrE)

lemma Transaction_init_priv_raw:
  "Transaction_init X H me rw v lt ver h pos jd = Inr T \<Longrightarrow>
     priv_raw T = rw \<and> priv_raw_sans_segwit T = None"
  by (auto simp: Transaction_init_def deserialize_def Transaction_new_def
      dest: deserialize_stream_priv_raw split: if_splits)

lemma segwit_bytes_parsed:
  "Transaction_init toy_ext no_hashes 1 (Some segwit_bytes) 1 0 False (- 2) (- 1) None
     = Inr segwit_parsed"
  by (simp add: example_defs codec_defs)

text \<open>
  Claim C2, as the code has it. For a transaction whose \<open>is_segwit_flag\<close> is set and
  whose two caches are empty (as after \<open>add_inputs\<close> or \<open>add_outputs\<close>), \<open>raw\<close> and
  \<open>raw_sans_segwit\<close> are both the canonical serialization, which has no marker, flag
  or witness; and \<open>raw_sans_segwit\<close> still returns it once \<open>raw\<close> has filled its cache.
  A transaction constructed from raw bytes keeps them: its \<open>raw\<close> is those bytes.
\<close>

theorem raw_and_raw_sans_segwit:
  "(is_segwit_flag T \<noteq> 0 \<and> priv_raw T = None \<and> priv_raw_sans_segwit T = None \<longrightarrow>
      map_sum id fst (raw H T) = priv_serialize H T True False \<and>
      map_sum id fst (raw_sans_segwit H T) = priv_serialize H T True False \<and>
      (\<forall>b T1. raw H T = Inr (b, T1) \<longrightarrow> map_sum id fst (raw_sans_segwit H T1) = Inr b)) \<and>
   (Transaction_init X H me (Some bs) v lt ver h pos jd = Inr U \<longrightarrow> raw H U = Inr (bs, U))"
proof -
  have same: "priv_serialize H T True True = priv_serialize H T True False"
    by (simp add: priv_serialize_def)
  have cache: "priv_serialize H (T\<lparr>priv_raw := c\<rparr>) True True = priv_serialize H T True False" for c
    by (simp add: priv_serialize_def)
  have "raw H U = Inr (bs, U)" if "Transaction_init X H me (Some bs) v lt ver h pos jd = Inr U"
    using Transaction_init_priv_raw [OF that] by (simp add: raw_def)
  moreover have "map_sum id fst (raw H T) = priv_serialize H T True False"
    if "priv_raw T = None"
    using that by (cases "priv_serialize H T True False") (simp_all add: raw_def bind_result_def)
  moreover have "map_sum id fst (raw_sans_segwit H T) = priv_serialize H T True False"
    if "is_segwit_flag T \<noteq> 0" "priv_raw_sans_segwit T = None"
    using that same
    by (cases "priv_serialize H T True False") (simp_all add: raw_sans_segwit_def bind_result_def)
  moreover have "map_sum id fst (raw_sans_segwit H T1) = Inr b"
    if "is_segwit_flag T \<noteq> 0" "priv_raw T = None" "priv_raw_sans_segwit T = None"
      "raw H T = Inr (b, T1)" for b T1
  proof -
    from that(2,4) have "priv_serialize H T True False = Inr b" and "T1 = T\<lparr>priv_raw := Some b\<rparr>"
      by (auto simp: raw_def bind_result_Inr)
    with that(1,3) cache [of "Some b"] show ?thesis
      by (simp add: raw_sans_segwit_def bind_result_def)
  qed
  ultimately show ?thesis by blast
qed

theorem raw_and_raw_sans_segwit_witness:
  "is_segwit_flag tx_mixed_segwit \<noteq> 0 \<and> priv_raw tx_mixed_segwit = None \<and>
   priv_raw_sans_segwit tx_mixed_segwit = None \<and>
   map_sum id fst (raw no_hashes tx_mixed_segwit) = Inr tx_mixed_bytes \<and>
   map_sum id fst (raw_sans_segwit no_hashes tx_mixed_segwit) = Inr tx_mixed_bytes \<and>
   raw no_hashes tx_mixed_segwit
     = Inr (tx_mixed_bytes, tx_mixed_segwit\<lparr>priv_raw := Some tx_mixed_bytes\<rparr>) \<and>
   map_sum id fst (raw_sans_segwit no_hashes (tx_mixed_segwit\<lparr>priv_raw := Some tx_mixed_bytes\<rparr>))
     = Inr tx_mixed_bytes \<and>
   Transaction_init toy_ext no_hashes 1 (Some segwit_bytes) 1 0 False (- 2) (- 1) None
     = Inr segwit_parsed \<and>
   raw no_hashes segwit_parsed = Inr (segwit_bytes, segwit_parsed)"
proof -
  have a: "is_segwit_flag tx_mixed_segwit \<noteq> 0" "priv_raw tx_mixed_segwit = None"
    "priv_raw_sans_segwit tx_mixed_segwit = None"
    by (simp_all add: example_defs)
  have b: "priv_serialize no_hashes tx_mixed_segwit True False = Inr tx_mixed_bytes"
    by (simp add: example_defs codec_defs)
  note c = segwit_bytes_parsed
  have d: "raw no_hashes tx_mixed_segwit
     = Inr (tx_mixed_bytes, tx_mixed_segwit\<lparr>priv_raw := Some tx_mixed_bytes\<rparr>)"
    using a(2) b by (simp add: raw_def bind_result_def)
  note t = raw_and_raw_sans_segwit [where T = tx_mixed_segwit and H = no_hashes
      and X = toy_ext and me = 1 and bs = segwit_bytes and v = 1 and lt = 0 and ver = False
      and h = "- 2" and pos = "- 1" and jd = None and U = segwit_parsed]
  from t a b c d show ?thesis by simp
qed

text \<open>
  Claim C2 as stated fails for its own example. The constructor applied to segwit wire
  bytes sets \<open>is_segwit_flag\<close> and keeps the bytes in \<open>_raw\<close>, so \<open>raw\<close> returns
  them with marker, flag and witness, while \<open>raw_sans_segwit\<close> serializes anew.
\<close>

theorem raw_of_segwit_bytes_counterexample:
  "Transaction_init toy_ext no_hashes 1 (Some segwit_bytes) 1 0 False (- 2) (- 1) None
     = Inr segwit_parsed \<and>
   is_segwit_flag segwit_parsed = 1 \<and>
   map_sum id fst (raw no_hashes segwit_parsed) = Inr segwit_bytes \<and>
   map_sum id fst (raw_sans_segwit no_hashes segwit_parsed) = Inr stripped_bytes \<and>
   segwit_bytes \<noteq> stripped_bytes"
proof -
  have "map_sum id fst (raw no_hashes segwit_parsed) = Inr segwit_bytes"
    by (simp add: raw_def segwit_parsed_def)
  moreover have "map_sum id fst (raw_sans_segwit no_hashes segwit_parsed) = Inr stripped_bytes"
    by (simp add: example_defs codec_defs raw_sans_segwit_def)
  moreover have "segwit_bytes \<noteq> stripped_bytes"
    by (simp add: segwit_bytes_def stripped_bytes_def)
  moreover have "is_segwit_flag segwit_parsed = 1"
    by (simp add: segwit_parsed_def)
  ultimately show ?thesis
    using segwit_bytes_parsed by simp
qed

section \<open>The signature pre-image\<close>

lemma serialize_alternate_script:
  "Input_serialize_to H txin s (Some b) = Input_serialize_to H (with_script_bytes txin b) s None"
  by (simp add: Input_serialize_to_def with_script_bytes_def is_coinbase_def)

lemma write_signing_inputs_eq:
  assumes "\<And>m. m < length ins \<Longrightarrow> int (n + m) = si \<Longrightarrow>
      \<exists>t. txo (txo_ref (ins ! m)) = Some t \<and> source (Output.script t) = src"
  shows "write_signing_inputs H si (int n) s ins
       = write_each (\<lambda>stream txin. Input_serialize_to H txin stream None) s
           (map (\<lambda>(j, txin). with_script_bytes txin (if int j = si then src else []))
              (enumerate n ins))"
  using assms
proof (induction ins arbitrary: n s)
  case Nil
  then show ?case by simp
next
  case (Cons txin rest)
  have head: "(if si = int n
        then (case txo (txo_ref txin) of None \<Rightarrow> Inl AssertionError
              | Some t \<Rightarrow> Input_serialize_to H txin s (Some (source (Output.script t))))
        else Input_serialize_to H txin s (Some []))
      = Input_serialize_to H (with_script_bytes txin (if int n = si then src else [])) s None"
  proof (cases "si = int n")
    case True
    with Cons.prems [of 0] obtain t where "txo (txo_ref txin) = Some t"
      and "source (Output.script t) = src"
      by auto
    with True show ?thesis by (simp add: serialize_alternate_script)
  next
    case False
    then show ?thesis by (auto simp: serialize_alternate_script)
  qed
  have tail: "write_signing_inputs H si (int (Suc n)) s' rest
      = write_each (\<lambda>stream txin. Input_serialize_to H txin stream None) s'
          (map (\<lambda>(j, txin). with_script_bytes txin (if int j = si then src else []))
             (enumerate (Suc n) rest))" for s'
  proof (rule Cons.IH)
    fix m
    assume "m < length rest" and "int (Suc n + m) = si"
    with Cons.prems [of "Suc m"]
    show "\<exists>t. txo (txo_ref (rest ! m)) = Some t \<and> source (Output.script t) = src"
      by simp
  qed
  have "int n + 1 = int (Suc n)" by simp
  then show ?case
    using head tail by (simp only: write_signing_inputs.simps write_each.simps enumerate_simps
        list.map prod.case)
qed

text \<open>
  Claim C4. For an input index \<open>i\<close> whose previous output is attached,
  \<open>_serialize_for_signature\<close> returns what the specification describes: the canonical
  serialization of the transaction in which the script field of input \<open>i\<close> is the
  source of the previous output's script and every other script field is empty, followed
  by 1 as four little-endian bytes. The two agree on failures as well.
\<close>

theorem signature_preimage:
  assumes "i < length (priv_inputs self)"
    and "txo (txo_ref (priv_inputs self ! i)) = Some t"
  shows "priv_serialize_for_signature H self (int i)
       = spec_preimage H self i (source (Output.script t))"
proof -
  let ?src = "source (Output.script t)"
  have "write_signing_inputs H (int i) (int 0) s (priv_inputs self)
      = write_each (\<lambda>stream txin. Input_serialize_to H txin stream None) s
          (map (\<lambda>(j, txin). with_script_bytes txin (if int j = int i then ?src else []))
             (enumerate 0 (priv_inputs self)))" for s
    using assms by (intro write_signing_inputs_eq) auto
  then have inputs: "write_signing_inputs H (int i) 0 s (priv_inputs self)
      = write_each (\<lambda>stream txin. Input_serialize_to H txin stream None) s
          (signing_inputs i ?src (priv_inputs self))" for s
    by (simp add: signing_inputs_def)
  have len: "length (signing_inputs i ?src (priv_inputs self)) = length (priv_inputs self)"
    by (simp add: signing_inputs_def)
  show ?thesis
    unfolding priv_serialize_for_signature_def spec_preimage_def priv_serialize_def
    by (cases "write_uint32 [] (version self)")
      (simp_all add: inputs len bind_result_def signature_hash_type_def split: sum.splits)
qed

theorem signature_preimage_witness:
  "(1 :: nat) < length (priv_inputs (tx_mixed (Some True))) \<and>
   txo (txo_ref (priv_inputs (tx_mixed (Some True)) ! 1)) = Some (spent_output (Some True)) \<and>
   source (Output.script (spent_output (Some True))) = [0x51] \<and>
   priv_serialize_for_signature no_hashes (tx_mixed (Some True)) (int 1) = Inr tx_mixed_preimage \<and>
   spec_preimage no_hashes (tx_mixed (Some True)) 1 [0x51] = Inr tx_mixed_preimage"
proof -
  have a: "(1 :: nat) < length (priv_inputs (tx_mixed (Some True)))"
    by (simp add: example_defs)
  have b: "txo (txo_ref (priv_inputs (tx_mixed (Some True)) ! 1)) = Some (spent_output (Some True))"
    by (simp add: example_defs)
  have c: "source (Output.script (spent_output (Some True))) = [0x51]"
    by (simp add: example_defs)
  have d: "priv_serialize_for_signature no_hashes (tx_mixed (Some True)) (int 1)
      = Inr tx_mixed_preimage"
    by (simp add: example_defs codec_defs priv_serialize_for_signature_def
        signature_hash_type_def)
  from signature_preimage [OF a b, of no_hashes] c d
  have "spec_preimage no_hashes (tx_mixed (Some True)) 1 [0x51] = Inr tx_mixed_preimage"
    by simp
  with a b c d show ?thesis by blast
qed

section \<open>Coinbase inputs\<close>

text \<open>
  Claim C6, as the code has it. An input built by the constructor with a script argument
  is a coinbase input exactly when the hash of the previous transaction is the null hash
  of 32 zero bytes. \<open>create_coinbase\<close> gives such an input position 0 of the previous
  output, the sequence 0xFFFFFFFF and the coinbase bytes \<open>beef\<close>, and its wire form is
  the null hash, the index 00 00 00 00, the coinbase bytes with their length, and the
  sequence. Whenever an input has coinbase bytes, \<open>serialize_to\<close> writes them where the
  script source of another input goes.
\<close>

theorem coinbase_input_on_the_wire:
  "is_coinbase (Input_init H r (Some scr) sq tref pos :: 'c Input)
     = (TXRef_hash H (TXORef.tx_ref r) = replicate 32 0) \<and>
   TXRef_hash H (TXORef.tx_ref (txo_ref (create_coinbase H :: 'c Input))) = replicate 32 0 \<and>
   TXORef.position (txo_ref (create_coinbase H :: 'c Input)) = 0 \<and>
   sequence (create_coinbase H :: 'c Input) = 0xFFFFFFFF \<and>
   coinbase (create_coinbase H :: 'c Input) = Some (RawBytes [0x62, 0x65, 0x65, 0x66]) \<and>
   Input_serialize_to H (create_coinbase H :: 'c Input) s None
     = Inr (s @ replicate 32 0 @ [0, 0, 0, 0] @ [4, 0x62, 0x65, 0x65, 0x66]
              @ [0xFF, 0xFF, 0xFF, 0xFF]) \<and>
   (coinbase (i :: 'c Input) = Some (RawBytes cb) \<longrightarrow>
      Input_serialize_to H i s None
        = bind_result
            (write_uint32 (s @ TXRef_hash H (TXORef.tx_ref (txo_ref i)))
               (TXORef.position (txo_ref i)))
            (\<lambda>stream. bind_result (write_string stream cb)
               (\<lambda>stream. write_uint32 stream (sequence i))))"
proof -
  have null: "TXORef_is_null H (TXORef_init (TXRefImmutable NULL_HASH32 0) 0 :: 'c Output TXORef)"
    by (simp add: TXORef_is_null_def TXRef_is_null_def TXORef_init_def TXRef_hash_def)
  have cb: "create_coinbase H
      = (\<lparr>InputOutput.tx_ref = None, InputOutput.position = None,
          txo_ref = TXORef_init (TXRefImmutable NULL_HASH32 0) 0, sequence = 0xFFFFFFFF,
          coinbase = Some (RawBytes [0x62, 0x65, 0x65, 0x66]), Input.script = None\<rparr> :: 'c Input)"
    using null by (simp add: create_coinbase_def Input_init_def)
  have "Input_serialize_to H (create_coinbase H :: 'c Input) s None
     = Inr (s @ replicate 32 0 @ [0, 0, 0, 0] @ [4, 0x62, 0x65, 0x65, 0x66]
              @ [0xFF, 0xFF, 0xFF, 0xFF])"
    unfolding cb
    by (simp add: Input_serialize_to_def TXORef_init_def TXRef_hash_def NULL_HASH32_def
        is_coinbase_def write_string_def write_compact_size_def write_uint8_def
        write_uint32_def write_uint_def stream_write_def bind_result_def le_bytes_numeral)
  moreover have "Input_serialize_to H i s None
        = bind_result
            (write_uint32 (s @ TXRef_hash H (TXORef.tx_ref (txo_ref i)))
               (TXORef.position (txo_ref i)))
            (\<lambda>stream. bind_result (write_string stream cb)
               (\<lambda>stream. write_uint32 stream (sequence i)))"
    if "coinbase i = Some (RawBytes cb)"
    using that
    by (simp add: Input_serialize_to_def is_coinbase_def stream_write_def bind_result_def)
  moreover have "is_coinbase (Input_init H r (Some scr) sq tref pos :: 'c Input)
     = (TXRef_hash H (TXORef.tx_ref r) = replicate 32 0)"
    by (simp add: is_coinbase_def Input_init_def TXORef_is_null_def TXRef_is_null_def
        NULL_HASH32_def)
  ultimately show ?thesis
    unfolding cb by (simp add: TXORef_init_def TXRef_hash_def NULL_HASH32_def)
qed

theorem coinbase_input_on_the_wire_witness:
  "coinbase unresolved_input = Some (RawBytes [0x62, 0x65, 0x65, 0x66]) \<and>
   is_coinbase unresolved_input \<and>
   Input_serialize_to no_hashes unresolved_input [] None
     = Inr (replicate 32 0 @ [0, 0, 0, 0] @ [4, 0x62, 0x65, 0x65, 0x66]
              @ [0xFF, 0xFF, 0xFF, 0xFF]) \<and>
   bind_result
     (write_uint32 ([] @ TXRef_hash no_hashes (TXORef.tx_ref (txo_ref unresolved_input)))
        (TXORef.position (txo_ref unresolved_input)))
     (\<lambda>stream. bind_result (write_string stream [0x62, 0x65, 0x65, 0x66])
        (\<lambda>stream. write_uint32 stream (sequence unresolved_input)))
     = Inr (replicate 32 0 @ [0, 0, 0, 0] @ [4, 0x62, 0x65, 0x65, 0x66]
              @ [0xFF, 0xFF, 0xFF, 0xFF])"
proof -
  note t = coinbase_input_on_the_wire [where 'c = unit and H = no_hashes and s = "[]"
      and i = unresolved_input and cb = "[0x62, 0x65, 0x65, 0x66]"
      and r = "TXORef_init (TXRefImmutable NULL_HASH32 0) 0"
      and scr = "RawBytes [0x62, 0x65, 0x65, 0x66]" and sq = "0xFFFFFFFF" and tref = None
      and pos = None]
  from t have a: "coinbase unresolved_input = Some (RawBytes [0x62, 0x65, 0x65, 0x66])"
    by (simp only: unresolved_input_def)
  then have b: "is_coinbase unresolved_input"
    by (simp add: is_coinbase_def)
  from t have c: "Input_serialize_to no_hashes unresolved_input [] None
     = Inr (replicate 32 0 @ [0, 0, 0, 0] @ [4, 0x62, 0x65, 0x65, 0x66]
              @ [0xFF, 0xFF, 0xFF, 0xFF])"
    by (simp only: unresolved_input_def append_Nil)
  from t a have "Input_serialize_to no_hashes unresolved_input [] None
     = bind_result
         (write_uint32 ([] @ TXRef_hash no_hashes (TXORef.tx_ref (txo_ref unresolved_input)))
            (TXORef.position (txo_ref unresolved_input)))
         (\<lambda>stream. bind_result (write_string stream [0x62, 0x65, 0x65, 0x66])
            (\<lambda>stream. write_uint32 stream (sequence unresolved_input)))"
    by blast
  with a b c show ?thesis by simp
qed

text \<open>
  Claim C6 as stated fails: the coinbase input that \<open>create_coinbase\<close> produces has
  the previous-output index 0, and the four index bytes on the wire are zero, not
  0xFFFFFFFF (which is its sequence).
\<close>

theorem create_coinbase_index_counterexample:
  "TXORef.position (txo_ref unresolved_input) = 0 \<and>
   TXORef.position (txo_ref unresolved_input) \<noteq> 0xFFFFFFFF \<and>
   Input_serialize_to no_hashes unresolved_input [] None
     = Inr (replicate 32 0 @ [0, 0, 0, 0] @ [4, 0x62, 0x65, 0x65, 0x66]
              @ [0xFF, 0xFF, 0xFF, 0xFF])"
  by (simp add: example_defs codec_defs)

section \<open>Attaching inputs and outputs\<close>

lemma priv_add_result:
  assumes "priv_add r objs ex new = (objs', ios')"
    and "distinct (ex @ new)"
    and "consistent objs r ex"
  shows "ios' = ex @ new \<and> consistent objs' r ios' \<and> (\<forall>a. a \<notin> set new \<longrightarrow> objs' a = objs a)"
  using assms
proof (induction new arbitrary: objs ex)
  case Nil
  then show ?case by simp
next
  case (Cons x new)
  let ?objs = "objs(x := (objs x)\<lparr>InputOutput.tx_ref := Some r,
                                  InputOutput.position := Some (int (length ex))\<rparr>)"
  from Cons.prems(1) have step: "priv_add r ?objs (ex @ [x]) new = (objs', ios')"
    by simp
  from Cons.prems(2) have d: "distinct ((ex @ [x]) @ new)" and x: "x \<notin> set ex" "x \<notin> set new"
    by auto
  have c: "consistent ?objs r (ex @ [x])"
    unfolding consistent_def
  proof (intro allI impI)
    fix i
    assume "i < length (ex @ [x])"
    then consider "i < length ex" | "i = length ex" by fastforce
    then show "InputOutput.position (?objs ((ex @ [x]) ! i)) = Some (int i) \<and>
        InputOutput.tx_ref (?objs ((ex @ [x]) ! i)) = Some r"
    proof cases
      case 1
      then have "ex ! i \<noteq> x" using x(1) by auto
      with 1 Cons.prems(3) show ?thesis
        by (simp add: consistent_def nth_append)
    next
      case 2
      then show ?thesis by (simp add: nth_append)
    qed
  qed
  from Cons.IH [OF step d c]
  have "ios' = (ex @ [x]) @ new" and "consistent objs' r ios'"
    and keep: "\<forall>a. a \<notin> set new \<longrightarrow> objs' a = ?objs a"
    by auto
  then show ?case by auto
qed

lemma consistent_cong:
  "\<forall>a \<in> set ios. objs' a = objs a \<Longrightarrow> consistent objs' r ios = consistent objs r ios"
  by (simp add: consistent_def)

lemma self_ref_priv_reset [simp]: "self_ref (priv_reset t) = self_ref t"
  by (simp add: self_ref_def priv_reset_def reset_def)

lemma caches_empty_priv_reset [simp]: "caches_empty (priv_reset t)"
  by (simp add: caches_empty_def priv_reset_def reset_def)

lemma add_inputs_attached:
  assumes "attached w" and "distinct new" and "set new \<inter> set (priv_inputs (tx_obj w)) = {}"
  shows "attached (add_inputs w new) \<and>
         priv_inputs (tx_obj (add_inputs w new)) = priv_inputs (tx_obj w) @ new \<and>
         priv_outputs (tx_obj (add_inputs w new)) = priv_outputs (tx_obj w) \<and>
         self_ref (tx_obj (add_inputs w new)) = self_ref (tx_obj w)"
proof -
  obtain objs' ios' where p: "priv_add (self_ref (tx_obj w)) (input_at w) (priv_inputs (tx_obj w)) new
      = (objs', ios')"
    by fastforce
  have "distinct (priv_inputs (tx_obj w) @ new)"
    using assms by (auto simp: attached_def)
  moreover have "consistent (input_at w) (self_ref (tx_obj w)) (priv_inputs (tx_obj w))"
    using assms(1) by (simp add: attached_def inputs_def)
  ultimately have r: "ios' = priv_inputs (tx_obj w) @ new"
    "consistent objs' (self_ref (tx_obj w)) ios'"
    using priv_add_result [OF p] by auto
  have w': "add_inputs w new
      = w\<lparr>input_at := objs', tx_obj := priv_reset ((tx_obj w)\<lparr>priv_inputs := ios'\<rparr>)\<rparr>"
    by (simp add: add_inputs_def p)
  have "self_ref ((tx_obj w)\<lparr>priv_inputs := ios'\<rparr>) = self_ref (tx_obj w)"
    by (simp add: self_ref_def)
  moreover have "priv_inputs (priv_reset t) = priv_inputs t"
    "priv_outputs (priv_reset t) = priv_outputs t" for t :: "(nat, nat) Transaction"
    by (simp_all add: priv_reset_def)
  ultimately show ?thesis
    using assms r \<open>distinct (priv_inputs (tx_obj w) @ new)\<close>
    by (simp add: w' attached_def inputs_def outputs_def)
qed

lemma add_outputs_attached:
  assumes "attached w" and "distinct new" and "set new \<inter> set (priv_outputs (tx_obj w)) = {}"
  shows "attached (add_outputs w new) \<and>
         priv_outputs (tx_obj (add_outputs w new)) = priv_outputs (tx_obj w) @ new \<and>
         priv_inputs (tx_obj (add_outputs w new)) = priv_inputs (tx_obj w) \<and>
         self_ref (tx_obj (add_outputs w new)) = self_ref (tx_obj w)"
proof -
  obtain objs' ios' where p: "priv_add (self_ref (tx_obj w)) (output_at w) (priv_outputs (tx_obj w)) new
      = (objs', ios')"
    by fastforce
  have "distinct (priv_outputs (tx_obj w) @ new)"
    using assms by (auto simp: attached_def)
  moreover have "consistent (output_at w) (self_ref (tx_obj w)) (priv_outputs (tx_obj w))"
    using assms(1) by (simp add: attached_def outputs_def)
  ultimately have r: "ios' = priv_outputs (tx_obj w) @ new"
    "consistent objs' (self_ref (tx_obj w)) ios'"
    using priv_add_result [OF p] by auto
  have w': "add_outputs w new
      = w\<lparr>output_at := objs', tx_obj := priv_reset ((tx_obj w)\<lparr>priv_outputs := ios'\<rparr>)\<rparr>"
    by (simp add: add_outputs_def p)
  have "self_ref ((tx_obj w)\<lparr>priv_outputs := ios'\<rparr>) = self_ref (tx_obj w)"
    by (simp add: self_ref_def)
  moreover have "priv_inputs (priv_reset t) = priv_inputs t"
    "priv_outputs (priv_reset t) = priv_outputs t" for t :: "(nat, nat) Transaction"
    by (simp_all add: priv_reset_def)
  ultimately show ?thesis
    using assms r \<open>distinct (priv_outputs (tx_obj w) @ new)\<close>
    by (simp add: w' attached_def inputs_def outputs_def)
qed

lemma run_calls_attached:
  assumes "attached w"
    and "distinct (priv_inputs (tx_obj w) @ added_inputs cs)"
    and "distinct (priv_outputs (tx_obj w) @ added_outputs cs)"
  shows "attached (run_calls w cs) \<and>
         priv_inputs (tx_obj (run_calls w cs)) = priv_inputs (tx_obj w) @ added_inputs cs \<and>
         priv_outputs (tx_obj (run_calls w cs)) = priv_outputs (tx_obj w) @ added_outputs cs \<and>
         self_ref (tx_obj (run_calls w cs)) = self_ref (tx_obj w)"
  using assms
proof (induction cs arbitrary: w)
  case Nil
  then show ?case by simp
next
  case (Cons c cs)
  show ?case
  proof (cases c)
    case (AddInputs new)
    with Cons.prems have "distinct new" "set new \<inter> set (priv_inputs (tx_obj w)) = {}"
      by auto
    from add_inputs_attached [OF Cons.prems(1) this]
    have a: "attached (add_inputs w new)"
      "priv_inputs (tx_obj (add_inputs w new)) = priv_inputs (tx_obj w) @ new"
      "priv_outputs (tx_obj (add_inputs w new)) = priv_outputs (tx_obj w)"
      "self_ref (tx_obj (add_inputs w new)) = self_ref (tx_obj w)"
      by auto
    have "attached (run_calls (add_inputs w new) cs) \<and>
         priv_inputs (tx_obj (run_calls (add_inputs w new) cs))
           = priv_inputs (tx_obj (add_inputs w new)) @ added_inputs cs \<and>
         priv_outputs (tx_obj (run_calls (add_inputs w new) cs))
           = priv_outputs (tx_obj (add_inputs w new)) @ added_outputs cs \<and>
         self_ref (tx_obj (run_calls (add_inputs w new) cs)) = self_ref (tx_obj (add_inputs w new))"
      using a Cons.prems AddInputs by (intro Cons.IH) simp_all
    with a AddInputs show ?thesis by simp
  next
    case (AddOutputs new)
    with Cons.prems have "distinct new" "set new \<inter> set (priv_outputs (tx_obj w)) = {}"
      by auto
    from add_outputs_attached [OF Cons.prems(1) this]
    have a: "attached (add_outputs w new)"
      "priv_outputs (tx_obj (add_outputs w new)) = priv_outputs (tx_obj w) @ new"
      "priv_inputs (tx_obj (add_outputs w new)) = priv_inputs (tx_obj w)"
      "self_ref (tx_obj (add_outputs w new)) = self_ref (tx_obj w)"
      by auto
    have "attached (run_calls (add_outputs w new) cs) \<and>
         priv_inputs (tx_obj (run_calls (add_outputs w new) cs))
           = priv_inputs (tx_obj (add_outputs w new)) @ added_inputs cs \<and>
         priv_outputs (tx_obj (run_calls (add_outputs w new) cs))
           = priv_outputs (tx_obj (add_outputs w new)) @ added_outputs cs \<and>
         self_ref (tx_obj (run_calls (add_outputs w new) cs)) = self_ref (tx_obj (add_outputs w new))"
      using a Cons.prems AddOutputs by (intro Cons.IH) simp_all
    with a AddOutputs show ?thesis by simp
  qed
qed

lemma add_caches_empty:
  "caches_empty (tx_obj (add_inputs w new))" "caches_empty (tx_obj (add_outputs w new))"
  by (simp_all add: add_inputs_def add_outputs_def split: prod.splits)

lemma run_calls_caches_empty:
  "cs \<noteq> [] \<Longrightarrow> caches_empty (tx_obj (run_calls w cs))"
proof (induction cs arbitrary: w)
  case Nil
  then show ?case by simp
next
  case (Cons c cs)
  have "caches_empty (tx_obj (run_call w c))"
    by (cases c) (simp_all add: add_caches_empty)
  then show ?case
    using Cons.IH [of "run_call w c"] by (cases cs) simp_all
qed

text \<open>
  When no object is passed twice, the store can be forgotten: the objects that the list
  refers to after \<open>_add\<close> are what the loop over values computes.
\<close>

lemma priv_add_values:
  assumes "priv_add r objs ex new = (objs', ios')" and "distinct (ex @ new)"
  shows "map objs' ios' = priv_add_loop r (map objs ex) (map objs new)"
  using assms
proof (induction new arbitrary: objs ex)
  case Nil
  then show ?case by simp
next
  case (Cons x new)
  let ?objs = "objs(x := (objs x)\<lparr>InputOutput.tx_ref := Some r,
                                  InputOutput.position := Some (int (length ex))\<rparr>)"
  from Cons.prems have step: "priv_add r ?objs (ex @ [x]) new = (objs', ios')"
    and d: "distinct ((ex @ [x]) @ new)" and x: "x \<notin> set ex" "x \<notin> set new"
    by auto
  have m1: "map ?objs ex = map objs ex"
    by (rule map_cong [OF refl]) (use x(1) in auto)
  have m2: "map ?objs new = map objs new"
    by (rule map_cong [OF refl]) (use x(2) in auto)
  have "map objs' ios' = priv_add_loop r (map ?objs (ex @ [x])) (map ?objs new)"
    using Cons.IH [OF step d] .
  also have "map ?objs (ex @ [x])
      = map objs ex @ [(objs x)\<lparr>InputOutput.tx_ref := Some r,
                                  InputOutput.position := Some (int (length ex))\<rparr>]"
    by (simp only: map_append m1 list.map fun_upd_same)
  finally show ?case
    by (simp only: m2 list.map priv_add_loop.simps length_map)
qed

lemma fresh_attached:
  "attached \<lparr>tx_obj = Transaction_new me rw v lt ver h pos jd, input_at = ia, output_at = oa\<rparr>"
  by (simp add: attached_def consistent_def Transaction_new_def inputs_def outputs_def)

text \<open>
  Claim C3, as the code has it. A new transaction is consistent: its lists hold no
  reference twice, and every input and output has its index as position and the
  transaction's reference as \<open>tx_ref\<close>. From a consistent transaction, every sequence
  of \<open>add_inputs\<close> and \<open>add_outputs\<close> calls that passes no object twice and no object
  that is already in the list leads to a transaction where again, for every index \<open>i\<close>,
  the input and the output at \<open>i\<close> have position \<open>i\<close> and the transaction's
  reference; the lists are the old ones followed by the added objects in order. Each
  call, whatever it adds, leaves the cached raw bytes and the cached hash and id of the
  mutable reference empty.
\<close>

theorem add_keeps_positions:
  assumes "attached w"
    and "distinct (priv_inputs (tx_obj w) @ added_inputs cs)"
    and "distinct (priv_outputs (tx_obj w) @ added_outputs cs)"
    and "w' = run_calls w cs"
  shows "(\<forall>i < length (inputs (tx_obj w')).
            InputOutput.position (input_at w' (inputs (tx_obj w') ! i)) = Some (int i) \<and>
            InputOutput.tx_ref (input_at w' (inputs (tx_obj w') ! i)) = Some (self_ref (tx_obj w'))) \<and>
         (\<forall>i < length (outputs (tx_obj w')).
            InputOutput.position (output_at w' (outputs (tx_obj w') ! i)) = Some (int i) \<and>
            InputOutput.tx_ref (output_at w' (outputs (tx_obj w') ! i)) = Some (self_ref (tx_obj w'))) \<and>
         inputs (tx_obj w') = inputs (tx_obj w) @ added_inputs cs \<and>
         outputs (tx_obj w') = outputs (tx_obj w) @ added_outputs cs \<and>
         (cs \<noteq> [] \<longrightarrow> caches_empty (tx_obj w')) \<and>
         caches_empty (tx_obj (add_inputs u xs)) \<and>
         caches_empty (tx_obj (add_outputs u xs)) \<and>
         attached \<lparr>tx_obj = Transaction_new me rw v lt ver h pos jd, input_at = ia,
                   output_at = oa\<rparr>"
proof -
  from run_calls_attached [OF assms(1-3)] assms(4)
  have "attached w'" and "priv_inputs (tx_obj w') = priv_inputs (tx_obj w) @ added_inputs cs"
    and "priv_outputs (tx_obj w') = priv_outputs (tx_obj w) @ added_outputs cs"
    by simp_all
  moreover have "cs \<noteq> [] \<longrightarrow> caches_empty (tx_obj w')"
    using assms(4) by (simp add: run_calls_caches_empty)
  ultimately show ?thesis
    using fresh_attached [of me rw v lt ver h pos jd ia oa]
    by (simp add: attached_def consistent_def inputs_def outputs_def add_caches_empty)
qed

lemma fresh_heap_attached: "attached fresh_heap"
  unfolding fresh_heap_def by (rule fresh_attached)

theorem add_keeps_positions_witness:
  "attached fresh_heap \<and>
   distinct (priv_inputs (tx_obj fresh_heap) @ added_inputs three_calls) \<and>
   distinct (priv_outputs (tx_obj fresh_heap) @ added_outputs three_calls) \<and>
   inputs (tx_obj (run_calls fresh_heap three_calls)) = [3, 1, 4] \<and>
   outputs (tx_obj (run_calls fresh_heap three_calls)) = [2] \<and>
   map (\<lambda>a. InputOutput.position (input_at (run_calls fresh_heap three_calls) a)) [3, 1, 4]
     = [Some 0, Some 1, Some 2] \<and>
   map (\<lambda>a. InputOutput.tx_ref (input_at (run_calls fresh_heap three_calls) a)) [3, 1, 4]
     = [Some (TXRefMutable 0), Some (TXRefMutable 0), Some (TXRefMutable 0)] \<and>
   InputOutput.position (output_at (run_calls fresh_heap three_calls) 2) = Some 0 \<and>
   InputOutput.tx_ref (output_at (run_calls fresh_heap three_calls) 2) = Some (TXRefMutable 0) \<and>
   caches_empty (tx_obj (run_calls fresh_heap three_calls))"
proof -
  have a: "distinct (priv_inputs (tx_obj fresh_heap) @ added_inputs three_calls)"
    "distinct (priv_outputs (tx_obj fresh_heap) @ added_outputs three_calls)"
    by (simp_all add: fresh_heap_def three_calls_def Transaction_new_def)
  have i: "inputs (tx_obj fresh_heap) = []" "outputs (tx_obj fresh_heap) = []"
    "self_ref (tx_obj fresh_heap) = TXRefMutable 0"
    by (simp_all add: fresh_heap_def Transaction_new_def inputs_def outputs_def self_ref_def)
  have c: "three_calls \<noteq> []" "added_inputs three_calls = [3, 1, 4]"
    "added_outputs three_calls = [2]"
    by (simp_all add: three_calls_def)
  let ?W = "run_calls fresh_heap three_calls"
  note t = add_keeps_positions [OF fresh_heap_attached a refl, where u = fresh_heap
      and xs = "[]" and me = 0 and rw = None and v = 1 and lt = 0 and ver = False
      and h = "- 2" and pos = "- 1" and jd = None and ia = "input_at fresh_heap"
      and oa = "output_at fresh_heap"]
  from t have l: "inputs (tx_obj ?W) = [3, 1, 4]" "outputs (tx_obj ?W) = [2]"
    "caches_empty (tx_obj ?W)"
    using c i by simp_all
  have s: "self_ref (tx_obj ?W) = TXRefMutable 0"
    using run_calls_attached [OF fresh_heap_attached a] i(3) by simp
  from t have p: "\<forall>i < length (inputs (tx_obj ?W)).
      InputOutput.position (input_at ?W (inputs (tx_obj ?W) ! i)) = Some (int i) \<and>
      InputOutput.tx_ref (input_at ?W (inputs (tx_obj ?W) ! i)) = Some (self_ref (tx_obj ?W))"
    by blast
  from t have q: "\<forall>i < length (outputs (tx_obj ?W)).
      InputOutput.position (output_at ?W (outputs (tx_obj ?W) ! i)) = Some (int i) \<and>
      InputOutput.tx_ref (output_at ?W (outputs (tx_obj ?W) ! i)) = Some (self_ref (tx_obj ?W))"
    by blast
  have p0: "InputOutput.position (input_at ?W 3) = Some 0"
    "InputOutput.tx_ref (input_at ?W 3) = Some (TXRefMutable 0)"
    using p [rule_format, of 0] by (simp_all add: l s)
  have p1: "InputOutput.position (input_at ?W 1) = Some 1"
    "InputOutput.tx_ref (input_at ?W 1) = Some (TXRefMutable 0)"
    using p [rule_format, of 1] by (simp_all add: l s)
  have p2: "InputOutput.position (input_at ?W 4) = Some 2"
    "InputOutput.tx_ref (input_at ?W 4) = Some (TXRefMutable 0)"
    using p [rule_format, of 2] by (simp_all add: l s)
  have q0: "InputOutput.position (output_at ?W 2) = Some 0"
    "InputOutput.tx_ref (output_at ?W 2) = Some (TXRefMutable 0)"
    using q [rule_format, of 0] by (simp_all add: l s)
  show ?thesis
    using fresh_heap_attached a l p0 p1 p2 q0 by simp
qed

text \<open>
  Claim C3 as stated fails when an object is passed twice. \<open>add_inputs([x, x])\<close> on a new
  transaction writes position 0 and then position 1 into the one object \<open>x\<close> and appends
  it twice: \<open>inputs[0].position\<close> is 1.
\<close>

theorem add_same_input_twice_counterexample:
  "inputs (tx_obj added_twice) = [5, 5] \<and>
   InputOutput.position (input_at added_twice (inputs (tx_obj added_twice) ! 0)) = Some 1"
  by (simp add: added_twice_def fresh_heap_def add_inputs_def Transaction_new_def inputs_def
      priv_reset_def self_ref_def)

section \<open>Signing and clearing a signature\<close>

lemma Output_claim_source:
  "Output_claim X self = Inr (c, self') \<Longrightarrow>
     source (Output.script self') = source (Output.script self) \<and>
     template (Output.script self') = template (Output.script self)"
  by (auto simp: Output_claim_def set_claim_def bind_result_Inr
      split: if_splits option.splits script_value.splits)

text \<open>
  \<open>sign\<close> ends with \<open>script.generate()\<close>: the script bytes of the signed output are
  assembled from its value map, which holds the signed payload.
\<close>

lemma sign_regenerates:
  assumes "sign X H live self chan first_input_id = Inr self'"
  shows "script_source self' = regenerated X self'"
  using assms unfolding sign_def Let_def
  by (elim bind_result_InrE)
    (auto simp: script_source_def regenerated_def generate_def elim!: bind_result_InrE)

text \<open>
  \<open>clear_signature\<close> changes the payload and stops there: the script bytes stay what
  they were.
\<close>

lemma clear_signature_keeps_source:
  assumes "clear_signature X self = Inr self'"
  shows "script_source self' = script_source self"
proof -
  from assms obtain c self1
    where "Output_claim X (self\<lparr>channel := None\<rparr>) = Inr (c, self1)"
      and "self' = set_claim self1 (claim_clear_signature X c)"
    by (auto simp: clear_signature_def Let_def bind_result_Inr)
  with Output_claim_source [of X "self\<lparr>channel := None\<rparr>" c self1] show ?thesis
    by (simp add: script_source_def set_claim_def)
qed

lemmas signing_defs =
  sign_def clear_signature_def Output_claim_def set_claim_def is_claim_def claim_hash_def
  first_input_hash_def TXORef_hash_def pack_be_uint32_def generate_def script_source_def
  regenerated_def is_claim_name_def is_update_claim_def is_support_claim_def
  be_bytes_def Let_def

lemma signed_output_bytes: "map_sum id script_source signed_output = Inr signed_bytes"
  by (simp add: example_defs signing_defs bind_result_def le_bytes_numeral)

text \<open>
  Claim C8 on a concrete output. A claim is signed by a channel; its script bytes are
  then the flag 1, the signature and the message. After \<open>clear_signature\<close> the payload
  has no signature, so \<open>script.generate()\<close> would give the flag 0 and the message, but
  the script bytes of the output are still those of the signed claim.
\<close>

theorem clear_signature_leaves_script_bytes:
  "map_sum id script_source signed_output = Inr signed_bytes \<and>
   map_sum id script_source cleared_output = Inr signed_bytes \<and>
   map_sum id (regenerated toy_ext) signed_output = Inr signed_bytes \<and>
   map_sum id (regenerated toy_ext) cleared_output = Inr [0, 0x07] \<and>
   signed_bytes \<noteq> [0, 0x07]"
  by (simp add: example_defs signing_defs bind_result_def le_bytes_numeral)

section \<open>Block files\<close>

lemma status_bits:
  "(s AND 1 \<noteq> 0 \<and> s AND 4 \<noteq> 0) = (bit s 0 \<and> bit s 2)" for s :: int
proof -
  have "bit s 0 = (s AND push_bit 0 1 \<noteq> 0)"
    by (rule bit_iff_and_push_bit_not_eq_0)
  moreover have "bit s 2 = (s AND push_bit 2 1 \<noteq> 0)"
    by (rule bit_iff_and_push_bit_not_eq_0)
  ultimately show ?thesis by simp
qed

lemma where_clause_kept: "where_clause f a r = kept f a r"
  by (cases f; cases a) (auto simp: where_clause_def kept_def status_bits)

lemma sqlite_sum_Inr: "sqlite_sum acc vs = Inr s \<Longrightarrow> s = acc + sum_list vs"
proof (induction vs arbitrary: acc)
  case Nil
  then show ?case by simp
next
  case (Cons v vs)
  from Cons.prems have "sqlite_sum (acc + v) vs = Inr s"
    by (simp split: if_splits)
  then have "s = acc + v + sum_list vs"
    by (rule Cons.IH)
  then show ?case by simp
qed

text \<open>Counts that are not negative and add up to less than \<open>2 ^ 63\<close> can be summed.\<close>

lemma sqlite_sum_bounded:
  assumes "\<forall>v \<in> set vs. 0 \<le> v" and "0 \<le> acc" and "acc + sum_list vs < 2 ^ 63"
  shows "sqlite_sum acc vs = Inr (acc + sum_list vs)"
  using assms
proof (induction vs arbitrary: acc)
  case Nil
  then show ?case by simp
next
  case (Cons v vs)
  have "0 \<le> sum_list vs"
    using Cons.prems(1) by (simp add: sum_list_nonneg)
  with Cons.prems have "int64 (acc + v)"
    by (simp add: int64_def)
  moreover have "sqlite_sum (acc + v) vs = Inr (acc + v + sum_list vs)"
    using Cons.prems by (intro Cons.IH) (simp_all add: add.assoc)
  ultimately show ?case by (simp add: add.assoc)
qed

lemma sum_list_filter_le:
  "\<forall>v \<in> set xs. 0 \<le> f v \<Longrightarrow> sum_list (map f (filter P xs)) \<le> sum_list (map f xs)"
  for f :: "'a \<Rightarrow> int"
  by (induction xs) (auto simp: add_increasing)

lemma all_results_Inr:
  "all_results xs = Inr ys \<longleftrightarrow> xs = map Inr ys"
proof (induction xs arbitrary: ys)
  case Nil
  show ?case by (cases ys) simp_all
next
  case (Cons x xs)
  show ?case
  proof (cases x)
    case (Inl e)
    then show ?thesis
      by (cases ys) (simp_all add: bind_result_def)
  next
    case x: (Inr y)
    show ?thesis
    proof (cases "all_results xs")
      case (Inl e)
      then have "xs \<noteq> map Inr zs" for zs
        using Cons.IH [of zs] by simp
      with Inl x show ?thesis
        by (cases ys) (simp_all add: bind_result_def)
    next
      case (Inr zs)
      then have "xs = map Inr zs' \<longleftrightarrow> zs = zs'" for zs'
        using Cons.IH [of zs'] by simp
      with Inr x show ?thesis
        by (cases ys) (simp_all add: bind_result_def)
    qed
  qed
qed

text \<open>The row of a file, when its sum can be taken.\<close>

lemma group_by_file_Inr:
  assumes "group_by_file (filter (kept f a) table) n = Inr row"
  shows "file_number row = n \<and>
     blocks row = int (length (filter (\<lambda>r. kept f a r \<and> file_col r = n) table)) \<and>
     txs row = sum_list (map txcount (filter (\<lambda>r. kept f a r \<and> file_col r = n) table)) \<and>
     max_height row
       = Max {block_info.height r | r. r \<in> set table \<and> kept f a r \<and> file_col r = n}"
proof -
  let ?g = "filter (\<lambda>r. kept f a r \<and> file_col r = n) table"
  have grp: "filter (\<lambda>r. file_col r = n) (filter (kept f a) table) = ?g"
    by (simp add: conj_commute)
  have mx: "set (map block_info.height ?g)
      = {block_info.height r | r. r \<in> set table \<and> kept f a r \<and> file_col r = n}"
    by auto
  from assms have "bind_result (sqlite_sum 0 (map txcount ?g)) (\<lambda>acc.
        Inr \<lparr>file_number = n, blocks = int (length ?g), txs = acc,
             max_height = Max (set (map block_info.height ?g))\<rparr>) = Inr row"
    by (simp only: group_by_file_def Let_def grp)
  then obtain acc where s: "sqlite_sum 0 (map txcount ?g) = Inr acc"
    and row: "\<lparr>file_number = n, blocks = int (length ?g), txs = acc,
        max_height = Max (set (map block_info.height ?g))\<rparr> = row"
    by (elim bind_result_InrE) simp
  from sqlite_sum_Inr [OF s] have acc: "acc = sum_list (map txcount ?g)"
    by simp
  show ?thesis
    unfolding row [symmetric] acc mx [symmetric] by simp
qed


text \<open>
  Claim C9. Whenever \<open>get_block_files\<close> returns, its result is ordered by ascending
  file number and has no file number twice; its file numbers are those of the rows that
  have status bits 0 and 2 set and, when both filters are given, belong to the given
  file and lie above the given height; and the row of a file counts those rows of the
  file, sums their transaction counts and has the greatest of their heights. It does
  return when the filters, if both are given, fit 64 bits and the transaction counts of
  the table are not negative and add up to less than \<open>2 ^ 63\<close>.
\<close>

theorem get_block_files_rows:
  "(sync_get_block_files table f a = Inr res \<longrightarrow>
      sorted (map file_number res) \<and> distinct (map file_number res) \<and>
      set (map file_number res) = file_col ` {r \<in> set table. kept f a r} \<and>
      (\<forall>row \<in> set res.
         blocks row
           = int (length (filter (\<lambda>r. kept f a r \<and> file_col r = file_number row) table)) \<and>
         txs row
           = sum_list (map txcount
               (filter (\<lambda>r. kept f a r \<and> file_col r = file_number row) table)) \<and>
         max_height row
           = Max {block_info.height r | r.
                  r \<in> set table \<and> kept f a r \<and> file_col r = file_number row})) \<and>
   (bindable f a \<and> (\<forall>r \<in> set table. 0 \<le> txcount r) \<and>
      sum_list (map txcount table) < 2 ^ 63 \<longrightarrow>
      (\<exists>rows. sync_get_block_files table f a = Inr rows))"
proof -
  let ?rows = "filter (kept f a) table"
  let ?files = "sort (remdups (map file_col ?rows))"
  have def: "sync_get_block_files table f a
      = (if \<not> bindable f a then Inl OverflowError
         else all_results (map (group_by_file ?rows) ?files))"
    by (simp add: sync_get_block_files_def Let_def where_clause_kept [abs_def])
  have first: "sorted (map file_number res) \<and> distinct (map file_number res) \<and>
      set (map file_number res) = file_col ` {r \<in> set table. kept f a r} \<and>
      (\<forall>row \<in> set res.
         blocks row
           = int (length (filter (\<lambda>r. kept f a r \<and> file_col r = file_number row) table)) \<and>
         txs row
           = sum_list (map txcount
               (filter (\<lambda>r. kept f a r \<and> file_col r = file_number row) table)) \<and>
         max_height row
           = Max {block_info.height r | r.
                  r \<in> set table \<and> kept f a r \<and> file_col r = file_number row})"
    if ret: "sync_get_block_files table f a = Inr res"
  proof -
    from ret have m: "map (group_by_file ?rows) ?files = map Inr res"
      by (simp add: def all_results_Inr split: if_splits)
    then have len: "length res = length ?files"
      by (metis length_map)
    have each: "group_by_file ?rows (?files ! i) = Inr (res ! i)" if "i < length ?files" for i
      using that m len by (metis nth_map)
    have fn: "map file_number res = ?files"
    proof (rule nth_equalityI)
      show "length (map file_number res) = length ?files"
        using len by simp
    next
      fix i
      assume "i < length (map file_number res)"
      then have i: "i < length ?files"
        using len by simp
      from group_by_file_Inr [OF each [OF i]] i len
      show "map file_number res ! i = ?files ! i"
        by simp
    qed
    have rows: "\<forall>row \<in> set res.
         blocks row
           = int (length (filter (\<lambda>r. kept f a r \<and> file_col r = file_number row) table)) \<and>
         txs row
           = sum_list (map txcount
               (filter (\<lambda>r. kept f a r \<and> file_col r = file_number row) table)) \<and>
         max_height row
           = Max {block_info.height r | r.
                  r \<in> set table \<and> kept f a r \<and> file_col r = file_number row}"
    proof
      fix row
      assume "row \<in> set res"
      then obtain i where i: "i < length res" and r: "row = res ! i"
        by (auto simp: in_set_conv_nth)
      have g: "group_by_file ?rows (?files ! i) = Inr row"
        using each [of i] i len r by simp
      note facts = group_by_file_Inr [OF g]
      from facts have n: "?files ! i = file_number row"
        by simp
      from facts show "blocks row
           = int (length (filter (\<lambda>r. kept f a r \<and> file_col r = file_number row) table)) \<and>
         txs row
           = sum_list (map txcount
               (filter (\<lambda>r. kept f a r \<and> file_col r = file_number row) table)) \<and>
         max_height row
           = Max {block_info.height r | r.
                  r \<in> set table \<and> kept f a r \<and> file_col r = file_number row}"
        unfolding n by (elim conjE) (intro conjI, assumption+)
    qed
    have s1: "sorted ?files" and s2: "distinct ?files"
      by simp_all
    have s3: "set ?files = file_col ` {r \<in> set table. kept f a r}"
      by auto
    show ?thesis
      unfolding fn
      apply (rule conjI, rule s1)
      apply (rule conjI, rule s2)
      apply (rule conjI, rule s3)
      apply (rule rows)
      done
  qed
  have second: "\<exists>rows. sync_get_block_files table f a = Inr rows"
    if b: "bindable f a" and nonneg: "\<forall>r \<in> set table. 0 \<le> txcount r"
      and acc: "sum_list (map txcount table) < 2 ^ 63"
  proof -
    have "\<exists>row. group_by_file ?rows n = Inr row" for n
    proof -
      let ?g = "filter (\<lambda>r. file_col r = n) ?rows"
      have "sum_list (map txcount ?g) \<le> sum_list (map txcount ?rows)"
        using nonneg by (intro sum_list_filter_le) simp
      also have "\<dots> \<le> sum_list (map txcount table)"
        using nonneg by (intro sum_list_filter_le) simp
      finally have "0 + sum_list (map txcount ?g) < 2 ^ 63"
        using acc by simp
      moreover have "\<forall>v \<in> set (map txcount ?g). 0 \<le> v"
        using nonneg by auto
      ultimately have "sqlite_sum 0 (map txcount ?g) = Inr (0 + sum_list (map txcount ?g))"
        by (intro sqlite_sum_bounded) simp_all
      then show ?thesis
        by (simp add: group_by_file_def Let_def bind_result_def)
    qed
    then obtain row where row: "group_by_file ?rows n = Inr (row n)" for n
      by metis
    have "map (group_by_file ?rows) ?files = map Inr (map row ?files)"
      by (simp add: row)
    then have "all_results (map (group_by_file ?rows) ?files) = Inr (map row ?files)"
      by (simp only: all_results_Inr)
    with b show ?thesis
      by (simp add: def)
  qed
  show ?thesis
    apply (rule conjI)
     apply (rule impI)
     apply (erule first)
    apply (rule impI)
    apply (elim conjE)
    apply (rule second)
      apply assumption+
    done
qed

theorem get_block_files_rows_witness:
  "sync_get_block_files some_blocks None None
     = Inr [\<lparr>file_number = 0, blocks = 1, txs = 2, max_height = 7\<rparr>,
            \<lparr>file_number = 1, blocks = 2, txs = 7, max_height = 12\<rparr>] \<and>
   sync_get_block_files some_blocks (Some 1) (Some 10)
     = Inr [\<lparr>file_number = 1, blocks = 1, txs = 4, max_height = 12\<rparr>] \<and>
   sync_get_block_files some_blocks (Some 1) None
     = sync_get_block_files some_blocks None None \<and>
   bindable (Some 1) (Some 10) \<and>
   list_all (\<lambda>r. 0 \<le> txcount r) some_blocks \<and>
   sum_list (map txcount some_blocks) < 2 ^ 63 \<and>
   sorted (map file_number
     [\<lparr>file_number = 0, blocks = 1, txs = 2, max_height = 7\<rparr>,
      \<lparr>file_number = 1, blocks = 2, txs = 7, max_height = 12\<rparr>]) \<and>
   distinct (map file_number
     [\<lparr>file_number = 0, blocks = 1, txs = 2, max_height = 7\<rparr>,
      \<lparr>file_number = 1, blocks = 2, txs = 7, max_height = 12\<rparr>]) \<and>
   (\<exists>rows. sync_get_block_files some_blocks (Some 1) (Some 10) = Inr rows)"
proof -
  let ?res = "[\<lparr>file_number = 0, blocks = 1, txs = 2, max_height = 7\<rparr>,
               \<lparr>file_number = 1, blocks = 2, txs = 7, max_height = 12\<rparr>]"
  have a: "sync_get_block_files some_blocks None None = Inr ?res"
    by (simp add: sync_get_block_files_def Let_def some_blocks_def where_clause_def
        group_by_file_def bindable_def int64_def bind_result_def)
  have b: "sync_get_block_files some_blocks (Some 1) (Some 10)
     = Inr [\<lparr>file_number = 1, blocks = 1, txs = 4, max_height = 12\<rparr>]"
    by (simp add: sync_get_block_files_def Let_def some_blocks_def where_clause_def
        group_by_file_def bindable_def int64_def bind_result_def)
  have "where_clause (Some 1) None = where_clause None None"
    by (simp add: where_clause_def fun_eq_iff)
  then have c: "sync_get_block_files some_blocks (Some 1) None
     = sync_get_block_files some_blocks None None"
    by (simp add: sync_get_block_files_def bindable_def)
  have d: "bindable (Some 1) (Some 10)" "list_all (\<lambda>r. 0 \<le> txcount r) some_blocks"
    "sum_list (map txcount some_blocks) < 2 ^ 63"
    by (simp_all add: bindable_def int64_def some_blocks_def)
  then have e: "\<forall>r \<in> set some_blocks. 0 \<le> txcount r"
    by (simp add: list_all_iff)
  from get_block_files_rows [where table = some_blocks and f = None and a = None
      and res = ?res] a
  have "sorted (map file_number ?res)" "distinct (map file_number ?res)"
    by blast+
  moreover from get_block_files_rows [where table = some_blocks and f = "Some 1"
      and a = "Some 10"] d(1,3) e
  have "\<exists>rows. sync_get_block_files some_blocks (Some 1) (Some 10) = Inr rows"
    by blast
  ultimately show ?thesis
    using a b c d by blast
qed

text \<open>
  Outside those bounds the query raises: a sum of transaction counts that reaches
  \<open>2 ^ 63\<close>, or a filter argument that does not fit 64 bits.
\<close>

lemma get_block_files_overflow:
  "sync_get_block_files huge_blocks None None = Inl OperationalError"
  "sync_get_block_files some_blocks (Some (2 ^ 63)) (Some 0) = Inl OverflowError"
  by (simp_all add: sync_get_block_files_def Let_def huge_blocks_def where_clause_def
      group_by_file_def bindable_def int64_def bind_result_def)

end
